theory Spec2Isabelle
  imports Complex_Main "HOL-Library.AList"
begin

section \<open>Strings\<close>

text \<open>
  A string is the list of its UTF-16 code units. \<open>units\<close> gives the code units of a
  literal of the source text (characters up to U+00FF, one unit each).
\<close>

type_synonym jsstring = "nat list"

definition units :: "string \<Rightarrow> jsstring" where
  "units s = map of_char s"

definition isHighSurrogate :: "nat \<Rightarrow> bool" where
  "isHighSurrogate u = (0xD800 \<le> u \<and> u \<le> 0xDBFF)"

definition isLowSurrogate :: "nat \<Rightarrow> bool" where
  "isLowSurrogate u = (0xDC00 \<le> u \<and> u \<le> 0xDFFF)"

text \<open>
  The code points of a string: a high surrogate followed by a low surrogate is one
  code point above U+FFFF, every other code unit is the code point of its own number
  (an unpaired surrogate too).
\<close>

fun codePoints :: "jsstring \<Rightarrow> nat list" where
  "codePoints [] = []"
| "codePoints [u] = [u]"
| "codePoints (u # v # rest) =
     (if isHighSurrogate u \<and> isLowSurrogate v
      then (0x10000 + (u - 0xD800) * 0x400 + (v - 0xDC00)) # codePoints rest
      else u # codePoints (v # rest))"

definition codeUnits :: "nat \<Rightarrow> jsstring" where
  "codeUnits cp =
     (if cp < 0x10000 then [cp]
      else [0xD800 + (cp - 0x10000) div 0x400, 0xDC00 + (cp - 0x10000) mod 0x400])"

definition fromCodePoints :: "nat list \<Rightarrow> jsstring" where
  "fromCodePoints cps = concat (map codeUnits cps)"

text \<open>
  The code units matched by \<^verbatim>\<open>\s\<close> in a regular expression and removed by \<^verbatim>\<open>trim\<close>:
  white space and line terminators.
\<close>

definition isSpaceUnit :: "nat \<Rightarrow> bool" where
  "isSpaceUnit u =
     ((9 \<le> u \<and> u \<le> 13) \<or> u = 32 \<or> u = 160 \<or> u = 0x1680 \<or> (0x2000 \<le> u \<and> u \<le> 0x200A)
      \<or> u = 0x2028 \<or> u = 0x2029 \<or> u = 0x202F \<or> u = 0x205F \<or> u = 0x3000 \<or> u = 0xFEFF)"

definition trim :: "jsstring \<Rightarrow> jsstring" where
  "trim s = rev (dropWhile isSpaceUnit (rev (dropWhile isSpaceUnit s)))"

text \<open>
  \<^verbatim>\<open>isValidIdentifier\<close>: false on the empty string, otherwise the first code unit
  lies between those of a and z.
\<close>

definition isValidIdentifier :: "jsstring \<Rightarrow> bool" where
  "isValidIdentifier text =
     (case text of [] \<Rightarrow> False
      | first # _ \<Rightarrow> of_char CHR ''a'' \<le> first \<and> first \<le> of_char CHR ''z'')"

section \<open>JavaScript values\<close>

text \<open>
  The values a parsed JSON body can hold, and function objects (a method read
  without being called is such a value). A number is the exact value of a double;
  only finite ones occur. An object is the list of its properties; the first binding
  of a name counts.
\<close>

datatype jsvalue =
    JUndefined
  | JNull
  | JBool bool
  | JNum rat
  | JStr jsstring
  | JArr "jsvalue list"
  | JObj "(jsstring \<times> jsvalue) list"
  | JFunction string

datatype jstype = TUndefined | TObject | TBoolean | TNumber | TString | TFunction

fun typeof :: "jsvalue \<Rightarrow> jstype" where
  "typeof JUndefined = TUndefined"
| "typeof JNull = TObject"
| "typeof (JBool b) = TBoolean"
| "typeof (JNum r) = TNumber"
| "typeof (JStr s) = TString"
| "typeof (JArr xs) = TObject"
| "typeof (JObj kvs) = TObject"
| "typeof (JFunction f) = TFunction"

fun isArray :: "jsvalue \<Rightarrow> bool" where
  "isArray (JArr xs) = True"
| "isArray v = False"

text \<open>The property of an object that the source names by an identifier.\<close>

definition member :: "(jsstring \<times> jsvalue) list \<Rightarrow> string \<Rightarrow> jsvalue" where
  "member obj name = (case map_of obj (units name) of None \<Rightarrow> JUndefined | Some v \<Rightarrow> v)"

text \<open>
  What the runtime supplies and the repository does not define: \<^verbatim>\<open>Date.parse\<close>,
  the conversion of a string to a number, the string an array or object converts
  to (\<open>None\<close> stands for NaN), and the Unicode data behind \<^verbatim>\<open>toLowerCase\<close>: the
  lower-case mapping of a code point, and the test whether a capital sigma between
  the code points before and after it is a final one.
\<close>

record runtime =
  dateParse :: "jsstring \<Rightarrow> int option"
  stringToNumber :: "jsstring \<Rightarrow> rat option"
  objectToString :: "jsvalue \<Rightarrow> jsstring"
  lowerCodePoint :: "nat \<Rightarrow> nat list"
  finalSigma :: "nat list \<Rightarrow> nat list \<Rightarrow> bool"

text \<open>
  ToNumber. A function object converts through its source text, which is no numeric
  literal: the result is NaN.
\<close>

fun toNumber :: "runtime \<Rightarrow> jsvalue \<Rightarrow> rat option" where
  "toNumber rt JUndefined = None"
| "toNumber rt JNull = Some 0"
| "toNumber rt (JBool b) = Some (if b then 1 else 0)"
| "toNumber rt (JNum r) = Some r"
| "toNumber rt (JStr s) = stringToNumber rt s"
| "toNumber rt (JArr xs) = stringToNumber rt (objectToString rt (JArr xs))"
| "toNumber rt (JObj kvs) = stringToNumber rt (objectToString rt (JObj kvs))"
| "toNumber rt (JFunction f) = None"

text \<open>The global \<^verbatim>\<open>isNaN\<close>: its argument is converted to a number first.\<close>

definition isNaN :: "runtime \<Rightarrow> jsvalue \<Rightarrow> bool" where
  "isNaN rt v = (toNumber rt v = None)"

text \<open>\<^verbatim>\<open>Number.isInteger\<close>: no conversion; false on everything that is not a number.\<close>

fun Number_isInteger :: "jsvalue \<Rightarrow> bool" where
  "Number_isInteger (JNum r) = (r = of_int \<lfloor>r\<rfloor>)"
| "Number_isInteger v = False"

text \<open>\<^verbatim>\<open>x == false\<close>: never for null and undefined, otherwise the comparison of ToNumber x with 0.\<close>

fun looseEqFalse :: "runtime \<Rightarrow> jsvalue \<Rightarrow> bool" where
  "looseEqFalse rt JUndefined = False"
| "looseEqFalse rt JNull = False"
| "looseEqFalse rt v = (toNumber rt v = Some 0)"

text \<open>
  \<^verbatim>\<open>JSON.stringify\<close> of a value handed to the driver as a query parameter: undefined
  for undefined and for a function, which the driver sends as SQL NULL (\<open>None\<close>);
  otherwise the JSON text of the value, kept here as the value (null is the JSON
  text null).
\<close>

fun stringify :: "jsvalue \<Rightarrow> jsvalue option" where
  "stringify JUndefined = None"
| "stringify (JFunction f) = None"
| "stringify v = Some v"

section \<open>Double arithmetic on integers\<close>

text \<open>
  The integers a double holds exactly are those below \<open>2 ^ 53\<close> in size and, above,
  the multiples of the spacing, which doubles with every further bit. The sum of two
  doubles is the double nearest to the exact sum, the one with the even significand
  when two are equally near.
\<close>

function spacing :: "int \<Rightarrow> int" where
  "spacing m = (if m < 2 ^ 53 then 1 else 2 * spacing (m div 2))"
  by pat_completeness auto
termination
  by (relation "measure nat") auto

declare spacing.simps [simp del]

definition roundMagnitude :: "int \<Rightarrow> int" where
  "roundMagnitude a =
     (let q = spacing a; lo = (a div q) * q; r = a mod q
      in if 2 * r < q then lo
         else if q < 2 * r then lo + q
         else if even (a div q) then lo else lo + q)"

definition nearestDouble :: "int \<Rightarrow> int" where
  "nearestDouble m = (if m < 0 then - roundMagnitude (- m) else roundMagnitude m)"


text \<open>\<^verbatim>\<open>n + 1\<close> for an integer-valued double \<open>n\<close>.\<close>

definition addOne :: "int \<Rightarrow> int" where
  "addOne n = nearestDouble (n + 1)"

section \<open>Data validation\<close>

definition isValidInteger :: "runtime \<Rightarrow> jsvalue \<Rightarrow> bool" where
  "isValidInteger rt integer = (\<not> isNaN rt integer \<and> Number_isInteger integer)"

text \<open>The integer an integer-valued number holds (used only under \<open>isValidInteger\<close>).\<close>

fun intOf :: "jsvalue \<Rightarrow> int" where
  "intOf (JNum r) = \<lfloor>r\<rfloor>"
| "intOf v = 0"

fun isValidString :: "jsvalue \<Rightarrow> bool" where
  "isValidString (JStr s) = (s \<noteq> [])"
| "isValidString v = False"

fun stringOf :: "jsvalue \<Rightarrow> jsstring" where
  "stringOf (JStr s) = s"
| "stringOf v = []"

text \<open>
  A Date object: a time value in milliseconds since the epoch, or the invalid date
  (time value NaN). The constructor clips to the range of 8.64e15 milliseconds.
\<close>

datatype jsdate = DateAt int | InvalidDate

definition timeClip :: "int \<Rightarrow> jsdate" where
  "timeClip t = (if \<bar>t\<bar> \<le> 8640000000000000 then DateAt t else InvalidDate)"

fun newDate :: "runtime \<Rightarrow> jsvalue \<Rightarrow> jsdate" where
  "newDate rt (JNum r) = (if r = of_int \<lfloor>r\<rfloor> then timeClip \<lfloor>r\<rfloor> else InvalidDate)"
| "newDate rt (JStr s) = (case dateParse rt s of None \<Rightarrow> InvalidDate | Some t \<Rightarrow> timeClip t)"
| "newDate rt v = InvalidDate"

definition dateOrInvalid :: "runtime \<Rightarrow> jsvalue \<Rightarrow> jsdate" where
  "dateOrInvalid rt timecode =
     (if isValidInteger rt timecode \<or> isValidString timecode then newDate rt timecode
      else InvalidDate)"

text \<open>
  \<^verbatim>\<open>time.valueOf\<close>, as both handlers write it: the property is read and not called,
  so the value is the method \<^verbatim>\<open>Date.prototype.valueOf\<close> itself, whatever the date.
  \<^verbatim>\<open>time.valueOf()\<close>, the call, would give the time value.
\<close>

definition valueOf_property :: "jsdate \<Rightarrow> jsvalue" where
  "valueOf_property time = JFunction ''valueOf''"

fun valueOf_call :: "jsdate \<Rightarrow> rat option" where
  "valueOf_call (DateAt t) = Some (of_int t)"
| "valueOf_call InvalidDate = None"

text \<open>The timestamp check of \<^verbatim>\<open>tryConnect\<close> and \<^verbatim>\<open>tryLogEvent\<close>: \<^verbatim>\<open>isNaN(time.valueOf)\<close>.\<close>

definition timestampRejected :: "runtime \<Rightarrow> jsdate \<Rightarrow> bool" where
  "timestampRejected rt time = isNaN rt (valueOf_property time)"

definition textOrPlaceholder :: "jsvalue \<Rightarrow> jsstring" where
  "textOrPlaceholder text =
     (if isValidString text
      then (let trimmed = trim (stringOf text) in if trimmed \<noteq> [] then trimmed else units ''?'')
      else units ''?'')"

section \<open>Identifier sanitizer\<close>

text \<open>
  \<^verbatim>\<open>toLowerCase\<close> maps the code points of the string, one after the other, and puts
  the result back into code units. A capital sigma (U+03A3) in final position becomes
  the final small sigma (U+03C2); every other code point becomes its lower-case
  mapping.
\<close>

fun lowerFrom :: "runtime \<Rightarrow> nat list \<Rightarrow> nat list \<Rightarrow> nat list" where
  "lowerFrom rt before [] = []"
| "lowerFrom rt before (cp # after) =
     (if cp = 0x3A3 \<and> finalSigma rt before after then [0x3C2] else lowerCodePoint rt cp)
       @ lowerFrom rt (before @ [cp]) after"

definition toLowerCase :: "runtime \<Rightarrow> jsstring \<Rightarrow> jsstring" where
  "toLowerCase rt s = fromCodePoints (lowerFrom rt [] (codePoints s))"

text \<open>
  \<^verbatim>\<open>name.toLowerCase().replace(/[\s-]/g, '_').replace(/[.,';:]/g, '')\<close>: both
  replacements work on code units.
\<close>

definition spaceOrHyphen :: "nat \<Rightarrow> bool" where
  "spaceOrHyphen u = (isSpaceUnit u \<or> u = of_char CHR ''-'')"

definition strippedPunctuation :: "nat \<Rightarrow> bool" where
  "strippedPunctuation u =
     (u = of_char CHR ''.'' \<or> u = of_char CHR '','' \<or> u = of_char (CHR 0x27)
      \<or> u = of_char CHR '';'' \<or> u = of_char CHR '':'')"

definition underscoreFor :: "nat \<Rightarrow> nat" where
  "underscoreFor u = (if spaceOrHyphen u then of_char CHR ''_'' else u)"

definition toTableName :: "runtime \<Rightarrow> jsstring \<Rightarrow> jsstring" where
  "toTableName rt name =
     filter (\<lambda>u. \<not> strippedPunctuation u) (map underscoreFor (toLowerCase rt name))"

text \<open>
  A string without unpaired surrogates (\<^verbatim>\<open>isWellFormed\<close>), and the code points that
  are no surrogates.
\<close>

fun isWellFormed :: "jsstring \<Rightarrow> bool" where
  "isWellFormed [] = True"
| "isWellFormed [u] = (u < 0x10000 \<and> \<not> isHighSurrogate u \<and> \<not> isLowSurrogate u)"
| "isWellFormed (u # v # rest) =
     (if isHighSurrogate u then isLowSurrogate v \<and> isWellFormed rest
      else u < 0x10000 \<and> \<not> isLowSurrogate u \<and> isWellFormed (v # rest))"

definition isScalarValue :: "nat \<Rightarrow> bool" where
  "isScalarValue cp = (cp \<le> 0x10FFFF \<and> \<not> isHighSurrogate cp \<and> \<not> isLowSurrogate cp)"

section \<open>The credential source\<close>

text \<open>
  \<^verbatim>\<open>authenticate\<close> compares the secret with the environment variable named by the
  upper-cased \<^verbatim>\<open>user_\<close> followed by the name. The environment is given as the function
  from the user name to the value of that variable (\<open>None\<close> when it is not set).
\<close>

definition authenticate :: "(jsstring \<Rightarrow> jsstring option) \<Rightarrow> jsstring \<Rightarrow> jsstring \<Rightarrow> bool" where
  "authenticate env userName userSecret = (env userName = Some userSecret)"

section \<open>The relational store\<close>

text \<open>
  One row of a telemetry table, with the columns of \<^verbatim>\<open>createTable\<close>. The data column
  holds a JSON value, or SQL NULL (\<open>None\<close>), which its NOT NULL constraint refuses.
\<close>

record row =
  col_session :: int
  col_version :: jsstring
  col_section :: jsstring
  col_eventType :: jsstring
  col_time :: jsdate
  col_data :: "jsvalue option"

type_synonym tables = "jsstring \<rightharpoonup> row list"

text \<open>The statements the server sends, and the places where it sends them.\<close>

datatype statement =
    Begin
  | TableCheck jsstring
  | CreateTable jsstring
  | MaxSession jsstring
  | InsertRow jsstring row
  | Commit
  | Rollback

datatype step =
    StepConnect
  | StepBegin
  | StepTableCheck
  | StepCreateTable
  | StepMaxSession
  | StepSessionStart
  | StepCommit
  | StepLogInsert

datatype dberror =
    QueryFailed
  | UndefinedTable jsstring
  | DuplicateTable jsstring
  | NotNullViolation
  | TypeError

text \<open>A query result as the driver returns it: the row count and the rows, each an object.\<close>

record qresult =
  rowCount :: nat
  rows :: "(jsstring \<times> jsvalue) list list"

definition commandDone :: qresult where
  "commandDone = \<lparr>rowCount = 0, rows = []\<rparr>"

definition oneRow :: "(jsstring \<times> jsvalue) list \<Rightarrow> qresult" where
  "oneRow r = \<lparr>rowCount = 1, rows = [r]\<rparr>"

text \<open>
  The store as seen through one connection: the committed tables, the tables of the
  open transaction (\<open>None\<close> when no transaction is open), and every statement sent
  so far. Outside a transaction a statement takes effect at once. The pool is this
  single connection. A handler runs to its end before the next one starts, except
  where two of them are put together explicitly (\<open>tryLogEvent_overlapped\<close>).
\<close>

record conn =
  committed :: tables
  working :: "tables option"
  issued :: "statement list"

definition view :: "conn \<Rightarrow> tables" where
  "view c = (case working c of Some w \<Rightarrow> w | None \<Rightarrow> committed c)"

definition store :: "tables \<Rightarrow> conn \<Rightarrow> conn" where
  "store t c = (case working c of Some w \<Rightarrow> c\<lparr>working := Some t\<rparr> | None \<Rightarrow> c\<lparr>committed := t\<rparr>)"

text \<open>\<^verbatim>\<open>SELECT MAX(session)\<close>: NULL on a table without rows.\<close>

fun maxSession :: "row list \<Rightarrow> int option" where
  "maxSession [] = None"
| "maxSession (r # rs) =
     (case maxSession rs of None \<Rightarrow> Some (col_session r) | Some m \<Rightarrow> Some (max (col_session r) m))"

fun run :: "statement \<Rightarrow> conn \<Rightarrow> (dberror + qresult) \<times> conn" where
  "run Begin c =
     (Inr commandDone, (case working c of None \<Rightarrow> c\<lparr>working := Some (committed c)\<rparr> | Some w \<Rightarrow> c))"
| "run (TableCheck n) c =
     (Inr (oneRow [(units ''exists'', JBool (view c n \<noteq> None))]), c)"
| "run (CreateTable n) c =
     (case view c n of
        Some rs \<Rightarrow> (Inl (DuplicateTable n), c)
      | None \<Rightarrow> (Inr commandDone, store ((view c)(n \<mapsto> [])) c))"
| "run (MaxSession n) c =
     (case view c n of
        None \<Rightarrow> (Inl (UndefinedTable n), c)
      | Some rs \<Rightarrow>
          (Inr (oneRow [(units ''max'', (case maxSession rs of None \<Rightarrow> JNull | Some m \<Rightarrow> JNum (of_int m)))]), c))"
| "run (InsertRow n r) c =
     (case view c n of
        None \<Rightarrow> (Inl (UndefinedTable n), c)
      | Some rs \<Rightarrow>
          if col_data r = None then (Inl NotNullViolation, c)
          else (Inr commandDone, store ((view c)(n \<mapsto> rs @ [r])) c))"
| "run Commit c = (Inr commandDone, c\<lparr>committed := view c, working := None\<rparr>)"
| "run Rollback c = (Inr commandDone, c\<lparr>working := None\<rparr>)"

text \<open>
  \<^verbatim>\<open>client.query\<close>: the statement is sent; it fails where the fault oracle says so
  (the store is then left as it was), and otherwise runs.
\<close>

definition query :: "(step \<Rightarrow> bool) \<Rightarrow> step \<Rightarrow> statement \<Rightarrow> conn \<Rightarrow> (dberror + qresult) \<times> conn" where
  "query fails st stmt c =
     (let c' = c\<lparr>issued := issued c @ [stmt]\<rparr>
      in if fails st then (Inl QueryFailed, c') else run stmt c')"

definition createTable :: "(step \<Rightarrow> bool) \<Rightarrow> jsstring \<Rightarrow> conn \<Rightarrow> (dberror + qresult) \<times> conn" where
  "createTable fails tableName c = query fails StepCreateTable (CreateTable tableName) c"

text \<open>The array \<^verbatim>\<open>values\<close> of \<^verbatim>\<open>recordEntry\<close>, as the row it inserts.\<close>

definition entryValues :: "int \<Rightarrow> jsstring \<Rightarrow> jsstring \<Rightarrow> jsstring \<Rightarrow> jsdate \<Rightarrow> jsvalue \<Rightarrow> row" where
  "entryValues session version section' eventType time data =
     \<lparr>col_session = session,
      col_version = version,
      col_section = (if section' \<noteq> [] then section' else units ''Default''),
      col_eventType = eventType,
      col_time = time,
      col_data = stringify data\<rparr>"

definition recordEntry ::
  "(step \<Rightarrow> bool) \<Rightarrow> step \<Rightarrow> jsstring \<Rightarrow> int \<Rightarrow> jsstring \<Rightarrow> jsstring \<Rightarrow> jsstring \<Rightarrow> jsdate
     \<Rightarrow> jsvalue \<Rightarrow> conn \<Rightarrow> (dberror + qresult) \<times> conn" where
  "recordEntry fails st table session version section' eventType time data c =
     query fails st (InsertRow table (entryValues session version section' eventType time data)) c"

section \<open>Beginning a session\<close>

datatype message =
    AuthenticationFailed
  | CreatedTable jsstring int
  | Authenticated jsstring int
  | SessionStartError jsstring dberror

record AuthResult =
  sessionId :: int
  message :: message

text \<open>What an asynchronous function ends with: a value, or an exception that escapes it.\<close>

datatype 'a outcome = Returned 'a | Threw dberror

text \<open>The \<^verbatim>\<open>catch\<close> block of \<^verbatim>\<open>tryBeginSession\<close>, followed by \<^verbatim>\<open>client.release()\<close>.\<close>

definition sessionStartFailed :: "jsstring \<Rightarrow> dberror \<Rightarrow> conn \<Rightarrow> AuthResult outcome \<times> conn" where
  "sessionStartFailed sanitizedName e c =
     (Returned \<lparr>sessionId = - 1, message = SessionStartError sanitizedName e\<rparr>, c)"

text \<open>
  Lines 250 to 255: the SessionStart row, the commit and the result.
\<close>

definition sessionStart ::
  "(step \<Rightarrow> bool) \<Rightarrow> jsstring \<Rightarrow> jsstring \<Rightarrow> jsstring \<Rightarrow> jsdate \<Rightarrow> jsstring \<Rightarrow> int \<Rightarrow> message
     \<Rightarrow> conn \<Rightarrow> AuthResult outcome \<times> conn" where
  "sessionStart fails sanitizedName version section' time setupId sid msg c =
     (case recordEntry fails StepSessionStart sanitizedName sid version section'
             (units ''SessionStart'') time (JObj [(units ''setup'', JStr setupId)]) c of
        (Inl e, c1) \<Rightarrow> sessionStartFailed sanitizedName e c1
      | (Inr r, c1) \<Rightarrow>
          (case query fails StepCommit Commit c1 of
             (Inl e, c2) \<Rightarrow> sessionStartFailed sanitizedName e c2
           | (Inr r', c2) \<Rightarrow> (Returned \<lparr>sessionId = sid, message = msg\<rparr>, c2)))"

text \<open>
  Line 232, \<^verbatim>\<open>tableResult.rowCount == 0 || tableResult.rows[0].exists == false\<close>, and
  lines 231 and 243 to 245, the session index after the \<^verbatim>\<open>MAX\<close> query. Reading
  \<^verbatim>\<open>rows[0]\<close> of a result without rows gives undefined, and reading a property of
  that throws.
\<close>

definition tableMissing :: "runtime \<Rightarrow> qresult \<Rightarrow> dberror + bool" where
  "tableMissing rt tableResult =
     (if rowCount tableResult = 0 then Inr True
      else
        (case rows tableResult of
           [] \<Rightarrow> Inl TypeError
         | row0 # _ \<Rightarrow> Inr (looseEqFalse rt (member row0 ''exists''))))"

definition nextSessionId :: "runtime \<Rightarrow> qresult \<Rightarrow> dberror + int" where
  "nextSessionId rt sessionResult =
     (if 0 < rowCount sessionResult
      then
        (case rows sessionResult of
           [] \<Rightarrow> Inl TypeError
         | row0 # _ \<Rightarrow>
             Inr ((if isValidInteger rt (member row0 ''max'') then intOf (member row0 ''max'') else 0) + 1))
      else Inr (0 + 1))"

text \<open>
  \<^verbatim>\<open>tryBeginSession\<close>. When \<^verbatim>\<open>pool.connect()\<close> fails, \<^verbatim>\<open>client\<close> is undefined in the
  \<^verbatim>\<open>finally\<close> block and \<^verbatim>\<open>client.release()\<close> throws there, which replaces the result of
  the \<^verbatim>\<open>catch\<close> block. The function sends no statement but those below; in
  particular the \<^verbatim>\<open>catch\<close> block sends none.
\<close>

definition tryBeginSession ::
  "runtime \<Rightarrow> (jsstring \<Rightarrow> jsstring option) \<Rightarrow> (step \<Rightarrow> bool)
     \<Rightarrow> jsstring \<Rightarrow> jsstring \<Rightarrow> jsstring \<Rightarrow> jsstring \<Rightarrow> jsdate \<Rightarrow> jsstring \<Rightarrow> conn
     \<Rightarrow> AuthResult outcome \<times> conn" where
  "tryBeginSession rt env fails sanitizedName userSecret version section' time setupId c =
     (if \<not> authenticate env sanitizedName userSecret
      then (Returned \<lparr>sessionId = - 1, message = AuthenticationFailed\<rparr>, c)
      else if fails StepConnect then (Threw TypeError, c)
      else
        (case query fails StepBegin Begin c of
           (Inl e, c1) \<Rightarrow> sessionStartFailed sanitizedName e c1
         | (Inr r, c1) \<Rightarrow>
             (case query fails StepTableCheck (TableCheck sanitizedName) c1 of
                (Inl e, c2) \<Rightarrow> sessionStartFailed sanitizedName e c2
              | (Inr tableResult, c2) \<Rightarrow>
                  (case tableMissing rt tableResult of
                     Inl e \<Rightarrow> sessionStartFailed sanitizedName e c2
                   | Inr True \<Rightarrow>
                       (case createTable fails sanitizedName c2 of
                          (Inl e, c3) \<Rightarrow> sessionStartFailed sanitizedName e c3
                        | (Inr r', c3) \<Rightarrow>
                            sessionStart fails sanitizedName version section' time setupId 0
                              (CreatedTable sanitizedName 0) c3)
                   | Inr False \<Rightarrow>
                       (case query fails StepMaxSession (MaxSession sanitizedName) c2 of
                          (Inl e, c3) \<Rightarrow> sessionStartFailed sanitizedName e c3
                        | (Inr sessionResult, c3) \<Rightarrow>
                            (case nextSessionId rt sessionResult of
                               Inl e \<Rightarrow> sessionStartFailed sanitizedName e c3
                             | Inr sid \<Rightarrow>
                                 sessionStart fails sanitizedName version section' time setupId sid
                                   (Authenticated sanitizedName sid) c3))))))"

section \<open>The session cache\<close>

record SessionInfo =
  table :: jsstring
  id' :: int
  version :: jsstring
  section' :: jsstring
  lastAccess :: int
  nextSequence :: int

text \<open>
  The cache \<^verbatim>\<open>sessions\<close>: its own properties in insertion order, one entry per key.
  \<open>AList.update\<close> is the assignment \<^verbatim>\<open>sessions[key] = value\<close>; assigning a field of
  a cached session object is the update of its entry. Keys that name a property every
  plain object inherits (such as \<^verbatim>\<open>constructor\<close>) are left out.
\<close>

type_synonym registry = "(jsstring \<times> SessionInfo) list"

section \<open>Request handlers\<close>

datatype reject =
    NoBody
  | InvalidUserName
  | InvalidSecretKey
  | InvalidTimestamp
  | SessionNotStarted message
  | InvalidSessionKey
  | SessionKeyNotFound
  | InvalidSequence
  | InvalidEventType

text \<open>
  The responses: status 200 with an empty body, the session start confirmation,
  status 400 with its text, status 500 with the error of the failed write.
\<close>

datatype response =
    Success
  | SessionStarted jsstring int message
  | BadRequest reject
  | InternalError jsstring jsstring dberror

text \<open>
  \<^verbatim>\<open>short.generate()\<close> is an oracle: the function from the number of the draw to the
  key drawn. Lines 316 to 319 draw until the key is no property of the cache.
\<close>

partial_function (option) generateSessionKey ::
  "(nat \<Rightarrow> jsstring) \<Rightarrow> registry \<Rightarrow> nat \<Rightarrow> jsstring option" where
  "generateSessionKey generate sessions n =
     (if map_of sessions (generate n) \<noteq> None
      then generateSessionKey generate sessions (Suc n)
      else Some (generate n))"

text \<open>
  Lines 310 to 334 of \<^verbatim>\<open>tryConnect\<close>, after the timestamp check. \<open>None\<close>: the
  handler never answers.
\<close>

definition tryConnect_session ::
  "runtime \<Rightarrow> (jsstring \<Rightarrow> jsstring option) \<Rightarrow> int \<Rightarrow> (step \<Rightarrow> bool) \<Rightarrow> (nat \<Rightarrow> jsstring)
     \<Rightarrow> jsstring \<Rightarrow> jsstring \<Rightarrow> jsstring \<Rightarrow> jsstring \<Rightarrow> jsstring \<Rightarrow> jsdate \<Rightarrow> registry \<Rightarrow> conn
     \<Rightarrow> (response outcome \<times> registry \<times> conn) option" where
  "tryConnect_session rt env now fails generate sanitizedName secret versionText sectionText setupId
       time sessions c =
     (case tryBeginSession rt env fails sanitizedName secret versionText sectionText time setupId c of
        (Threw e, c') \<Rightarrow> Some (Threw e, sessions, c')
      | (Returned result, c') \<Rightarrow>
          if sessionId result < 0
          then Some (Returned (BadRequest (SessionNotStarted (message result))), sessions, c')
          else
            (case generateSessionKey generate sessions 0 of
               None \<Rightarrow> None
             | Some sessionKey \<Rightarrow>
                 Some (Returned (SessionStarted sessionKey (sessionId result) (message result)),
                   AList.update sessionKey
                     \<lparr>table = sanitizedName,
                      id' = sessionId result,
                      version = versionText,
                      section' = sectionText,
                      lastAccess = now,
                      nextSequence = 0\<rparr> sessions,
                   c')))"

definition tryConnect ::
  "runtime \<Rightarrow> (jsstring \<Rightarrow> jsstring option) \<Rightarrow> int \<Rightarrow> (step \<Rightarrow> bool) \<Rightarrow> (nat \<Rightarrow> jsstring)
     \<Rightarrow> (jsstring \<times> jsvalue) list option \<Rightarrow> registry \<Rightarrow> conn
     \<Rightarrow> (response outcome \<times> registry \<times> conn) option" where
  "tryConnect rt env now fails generate reqBody sessions c =
     (case reqBody of
        None \<Rightarrow> Some (Returned (BadRequest NoBody), sessions, c)
      | Some body \<Rightarrow>
          if \<not> isValidString (member body ''userName'')
          then Some (Returned (BadRequest InvalidUserName), sessions, c)
          else if \<not> isValidString (member body ''secret'')
          then Some (Returned (BadRequest InvalidSecretKey), sessions, c)
          else
            (let sanitizedName = toTableName rt (trim (stringOf (member body ''userName'')))
             in if \<not> isValidIdentifier sanitizedName
                then Some (Returned (BadRequest InvalidUserName), sessions, c)
                else
                  (let secret = trim (stringOf (member body ''secret''));
                       versionText = textOrPlaceholder (member body ''version'');
                       sectionText = textOrPlaceholder (member body ''section'');
                       setupId = textOrPlaceholder (member body ''setupId'');
                       time = dateOrInvalid rt (member body ''timecode'')
                   in if timestampRejected rt time
                      then Some (Returned (BadRequest InvalidTimestamp), sessions, c)
                      else tryConnect_session rt env now fails generate sanitizedName secret
                             versionText sectionText setupId time sessions c)))"

text \<open>Lines 372 to 389 of \<^verbatim>\<open>tryLogEvent\<close>: the payload, by the type of the data sent.\<close>

definition normalizeData :: "jsvalue \<Rightarrow> jsvalue" where
  "normalizeData d =
     (case typeof d of
        TString \<Rightarrow> JObj [(units ''value'', d)]
      | TNumber \<Rightarrow> JObj [(units ''value'', d)]
      | TBoolean \<Rightarrow> JObj [(units ''value'', d)]
      | TObject \<Rightarrow> (if isArray d then JObj [(units ''list'', d)] else d)
      | TUndefined \<Rightarrow> JObj []
      | TFunction \<Rightarrow> JObj [])"

text \<open>
  Lines 365 to 393 of \<^verbatim>\<open>tryLogEvent\<close>, after the timestamp check and up to the
  \<^verbatim>\<open>await\<close>: the event type is checked and the row is sent to the store. \<open>session\<close>
  is the cached object found at line 348.
\<close>

definition tryLogEvent_write ::
  "(step \<Rightarrow> bool) \<Rightarrow> SessionInfo \<Rightarrow> (jsstring \<times> jsvalue) list \<Rightarrow> jsdate \<Rightarrow> conn
     \<Rightarrow> (response + jsstring \<times> (dberror + qresult)) \<times> conn" where
  "tryLogEvent_write fails session body time c =
     (if \<not> isValidString (member body ''eventType'')
      then (Inl (BadRequest InvalidEventType), c)
      else
        (let eventType = textOrPlaceholder (member body ''eventType'');
             sectionText = textOrPlaceholder (member body ''section'');
             data = normalizeData (member body ''data'')
         in case recordEntry fails StepLogInsert (table session) (id' session) (version session)
                   sectionText eventType time data c of
              (result, c') \<Rightarrow> (Inr (eventType, result), c')))"

text \<open>
  Lines 394 to 404, when the handler goes on after the \<^verbatim>\<open>await\<close>. \<open>sessions\<close> is the
  cache at that moment, which other requests and the sweep may have changed in the
  meantime. The assignment of line 394 goes to the session object found at line 348:
  that is the entry under the key if the key is still cached (a key, once deleted, is
  taken not to come back), and an object outside the cache otherwise.
\<close>

definition tryLogEvent_resume ::
  "jsstring \<Rightarrow> jsstring \<Rightarrow> (jsstring \<times> jsvalue) list \<Rightarrow> jsstring \<Rightarrow> dberror + qresult \<Rightarrow> registry
     \<Rightarrow> response \<times> registry" where
  "tryLogEvent_resume key tableName body eventType result sessions =
     (case result of
        Inr r \<Rightarrow>
          (Success,
           (case map_of sessions key of
              None \<Rightarrow> sessions
            | Some current \<Rightarrow>
                AList.update key
                  (current\<lparr>nextSequence := addOne (intOf (member body ''sequence''))\<rparr>) sessions))
      | Inl e \<Rightarrow> (InternalError eventType tableName e, sessions))"

text \<open>
  Lines 365 to 404 with nothing else served during the \<^verbatim>\<open>await\<close>: the handler goes on
  with the cache it left.
\<close>

definition tryLogEvent_record ::
  "(step \<Rightarrow> bool) \<Rightarrow> jsstring \<Rightarrow> SessionInfo \<Rightarrow> (jsstring \<times> jsvalue) list \<Rightarrow> jsdate \<Rightarrow> registry
     \<Rightarrow> conn \<Rightarrow> response \<times> registry \<times> conn" where
  "tryLogEvent_record fails key session body time sessions c =
     (case tryLogEvent_write fails session body time c of
        (Inl rejected, c') \<Rightarrow> (rejected, sessions, c')
      | (Inr (eventType, result), c') \<Rightarrow>
          (case tryLogEvent_resume key (table session) body eventType result sessions of
             (answer, sessions') \<Rightarrow> (answer, sessions', c')))"


definition tryLogEvent ::
  "runtime \<Rightarrow> int \<Rightarrow> (step \<Rightarrow> bool) \<Rightarrow> (jsstring \<times> jsvalue) list option \<Rightarrow> registry \<Rightarrow> conn
     \<Rightarrow> response \<times> registry \<times> conn" where
  "tryLogEvent rt now fails reqBody sessions c =
     (case reqBody of
        None \<Rightarrow> (BadRequest NoBody, sessions, c)
      | Some body \<Rightarrow>
          if \<not> isValidString (member body ''sessionKey'')
          then (BadRequest InvalidSessionKey, sessions, c)
          else
            (let key = trim (stringOf (member body ''sessionKey''))
             in case map_of sessions key of
                  None \<Rightarrow> (BadRequest SessionKeyNotFound, sessions, c)
                | Some found \<Rightarrow>
                    (let session = found\<lparr>lastAccess := now\<rparr>;
                         sessions1 = AList.update key session sessions
                     in if \<not> isValidInteger rt (member body ''sequence'')
                        then (BadRequest InvalidSequence, sessions1, c)
                        else if intOf (member body ''sequence'') < nextSequence session
                        then (Success, sessions1, c)
                        else
                          (let time = dateOrInvalid rt (member body ''timecode'')
                           in if timestampRejected rt time
                              then (BadRequest InvalidTimestamp, sessions1, c)
                              else tryLogEvent_record fails key session body time sessions1 c))))"

section \<open>Clean-up\<close>

definition SESSION_INTERVAL :: int where
  "SESSION_INTERVAL = 30 * 60 * 1000"

text \<open>
  The loop of \<^verbatim>\<open>cleanupOldSessions\<close> over the keys taken before it starts, with the
  two counters. Reading \<^verbatim>\<open>lastAccess\<close> of a key that is no longer there throws
  (\<open>None\<close>).
\<close>

fun sweep :: "int \<Rightarrow> jsstring list \<Rightarrow> registry \<Rightarrow> nat \<Rightarrow> nat \<Rightarrow> (registry \<times> nat \<times> nat) option" where
  "sweep threshold [] sessions deleted remaining = Some (sessions, deleted, remaining)"
| "sweep threshold (key # keys) sessions deleted remaining =
     (case map_of sessions key of
        None \<Rightarrow> None
      | Some s \<Rightarrow>
          if lastAccess s < threshold
          then sweep threshold keys (AList.delete key sessions) (deleted + 1) remaining
          else sweep threshold keys sessions deleted (remaining + 1))"

definition cleanupOldSessions :: "int \<Rightarrow> registry \<Rightarrow> (registry \<times> nat \<times> nat) option" where
  "cleanupOldSessions now sessions =
     (let threshold = now - SESSION_INTERVAL
      in sweep threshold (map fst sessions) sessions 0 0)"

section \<open>Example inputs\<close>

text \<open>
  A runtime for the examples. Of the Unicode data it has the lower-case mappings of
  A to Z, of the capital letters of Latin-1, of capital sigma and of the Deseret
  capitals U+10400 to U+10427 (each 40 below its small letter), and it takes no
  sigma for a final one.
\<close>

definition exampleLower :: "nat \<Rightarrow> nat list" where
  "exampleLower cp =
     (if (0x41 \<le> cp \<and> cp \<le> 0x5A) \<or> (0xC0 \<le> cp \<and> cp \<le> 0xDE \<and> cp \<noteq> 0xD7) then [cp + 32]
      else if cp = 0x3A3 then [0x3C3]
      else if 0x10400 \<le> cp \<and> cp \<le> 0x10427 then [cp + 40]
      else [cp])"

definition exampleRuntime :: runtime where
  "exampleRuntime =
     \<lparr>dateParse = (\<lambda>s. None), stringToNumber = (\<lambda>s. None), objectToString = (\<lambda>v. []),
      lowerCodePoint = exampleLower, finalSigma = (\<lambda>before after. False)\<rparr>"

definition teama :: jsstring where
  "teama = units ''teama''"

definition abc :: jsstring where
  "abc = units ''abc''"

definition exampleEnv :: "jsstring \<Rightarrow> jsstring option" where
  "exampleEnv = [teama \<mapsto> units ''pw'']"

definition noFault :: "step \<Rightarrow> bool" where
  "noFault st = False"

definition failsAt :: "step \<Rightarrow> step \<Rightarrow> bool" where
  "failsAt s st = (st = s)"

definition emptyStore :: conn where
  "emptyStore = \<lparr>committed = Map.empty, working = None, issued = []\<rparr>"

definition emptyTableStore :: conn where
  "emptyTableStore = \<lparr>committed = [teama \<mapsto> []], working = None, issued = []\<rparr>"

definition busyStore :: conn where
  "busyStore =
     \<lparr>committed = [teama \<mapsto>
        [entryValues 0 (units ''1.0'') (units ''Menu'') (units ''SessionStart'') (DateAt 0) (JObj []),
         entryValues 4 (units ''1.0'') (units ''Menu'') (units ''SessionStart'') (DateAt 0) (JObj [])]],
      working = None, issued = []\<rparr>"

definition session0 :: SessionInfo where
  "session0 =
     \<lparr>table = teama, id' = 0, version = units ''1.0'', section' = units ''Menu'',
      lastAccess = 5, nextSequence = 0\<rparr>"

definition logBody :: "(jsstring \<times> jsvalue) list" where
  "logBody =
     [(units ''sessionKey'', JStr abc), (units ''sequence'', JNum 0),
      (units ''timecode'', JNum 1700000000000), (units ''eventType'', JStr (units ''LevelStart''))]"

definition connectBody :: "(jsstring \<times> jsvalue) list" where
  "connectBody =
     [(units ''userName'', JStr (units ''teamA'')), (units ''secret'', JStr (units ''pw'')),
      (units ''timecode'', JNum 1700000000000)]"



text \<open>The row of a LevelStart event of \<open>session0\<close> sent without a section.\<close>

definition levelStart :: "jsvalue \<Rightarrow> row" where
  "levelStart data =
     entryValues 0 (units ''1.0'') (units ''?'') (units ''LevelStart'') (DateAt 1700000000000) data"

definition sameKey :: "nat \<Rightarrow> jsstring" where
  "sameKey n = abc"

definition lateKey :: "nat \<Rightarrow> jsstring" where
  "lateKey n = (if n < 3 then abc else units ''new'')"

definition threeSessions :: registry where
  "threeSessions =
     [(units ''old'', session0\<lparr>lastAccess := 199999\<rparr>),
      (units ''edge'', session0\<lparr>lastAccess := 200000\<rparr>),
      (units ''new'', session0\<lparr>lastAccess := 2000000\<rparr>)]"

text \<open>The letter a, a high surrogate, a full stop and a low surrogate.\<close>

definition splitPair :: jsstring where
  "splitPair = [0x61, 0xD801, 0x2E, 0xDC00]"

section \<open>Properties of the sanitizer\<close>

lemma codeUnits_small: "cp < 0x10000 \<Longrightarrow> codeUnits cp = [cp]"
  by (simp add: codeUnits_def)

lemma codeUnits_pair:
  assumes "isScalarValue cp" and big: "\<not> cp < 0x10000"
  shows "\<exists>hi lo. codeUnits cp = [hi, lo] \<and> isHighSurrogate hi \<and> isLowSurrogate lo
        \<and> 0x10000 + (hi - 0xD800) * 0x400 + (lo - 0xDC00) = cp"
proof -
  let ?d = "cp - 0x10000"
  from assms(1) have "cp \<le> 0x10FFFF" by (simp add: isScalarValue_def)
  then have "?d < 0x100000" by arith
  then have "?d div 0x400 < 0x400" by simp
  moreover have "?d mod 0x400 < 0x400" by simp
  moreover have "?d div 0x400 * 0x400 + ?d mod 0x400 = ?d" by simp
  ultimately show ?thesis
    using big by (simp add: codeUnits_def isHighSurrogate_def isLowSurrogate_def)
qed

lemma surrogate_plain:
  "isHighSurrogate u \<or> isLowSurrogate u \<Longrightarrow> \<not> spaceOrHyphen u \<and> \<not> strippedPunctuation u"
  by (auto simp: isHighSurrogate_def isLowSurrogate_def spaceOrHyphen_def isSpaceUnit_def
      strippedPunctuation_def)

lemma astral_plain:
  "\<not> cp < 0x10000 \<Longrightarrow> \<not> spaceOrHyphen cp \<and> \<not> strippedPunctuation cp"
  by (auto simp: spaceOrHyphen_def isSpaceUnit_def strippedPunctuation_def)

lemma codePoints_Cons:
  "\<not> isHighSurrogate u \<Longrightarrow> codePoints (u # rest) = u # codePoints rest"
  by (cases rest) simp_all

lemma codePoints_fromCodePoints:
  "\<forall>c\<in>set cps. isScalarValue c \<Longrightarrow> codePoints (fromCodePoints cps) = cps"
proof (induction cps)
  case Nil
  then show ?case by (simp add: fromCodePoints_def)
next
  case (Cons c cps)
  then have IH: "codePoints (fromCodePoints cps) = cps" and c: "isScalarValue c"
    by simp_all
  show ?case
  proof (cases "c < 0x10000")
    case True
    from c have "\<not> isHighSurrogate c" by (simp add: isScalarValue_def)
    with True IH show ?thesis
      by (simp add: fromCodePoints_def codeUnits_small codePoints_Cons)
  next
    case False
    from codeUnits_pair [OF c False] obtain hi lo where
      "codeUnits c = [hi, lo]" "isHighSurrogate hi" "isLowSurrogate lo"
      "0x10000 + (hi - 0xD800) * 0x400 + (lo - 0xDC00) = c"
      by blast
    with IH show ?thesis
      by (simp add: fromCodePoints_def)
  qed
qed

lemma underscoreFor_fromCodePoints:
  "\<forall>c\<in>set cps. isScalarValue c \<Longrightarrow>
    map underscoreFor (fromCodePoints cps) = fromCodePoints (map underscoreFor cps)"
proof (induction cps)
  case Nil
  then show ?case by (simp add: fromCodePoints_def)
next
  case (Cons c cps)
  then have IH: "map underscoreFor (fromCodePoints cps) = fromCodePoints (map underscoreFor cps)"
    and c: "isScalarValue c"
    by simp_all
  have "map underscoreFor (codeUnits c) = codeUnits (underscoreFor c)"
  proof (cases "c < 0x10000")
    case True
    then have "underscoreFor c < 0x10000" by (simp add: underscoreFor_def)
    with True show ?thesis by (simp add: codeUnits_small)
  next
    case False
    from codeUnits_pair [OF c False] obtain hi lo where
      "codeUnits c = [hi, lo]" "isHighSurrogate hi" "isLowSurrogate lo"
      by blast
    with False show ?thesis
      by (simp add: underscoreFor_def surrogate_plain astral_plain)
  qed
  with IH show ?case by (simp add: fromCodePoints_def)
qed

lemma filter_fromCodePoints:
  "\<forall>c\<in>set cps. isScalarValue c \<Longrightarrow>
    filter (\<lambda>u. \<not> strippedPunctuation u) (fromCodePoints cps)
      = fromCodePoints (filter (\<lambda>u. \<not> strippedPunctuation u) cps)"
proof (induction cps)
  case Nil
  then show ?case by (simp add: fromCodePoints_def)
next
  case (Cons c cps)
  then have IH: "filter (\<lambda>u. \<not> strippedPunctuation u) (fromCodePoints cps)
      = fromCodePoints (filter (\<lambda>u. \<not> strippedPunctuation u) cps)"
    and c: "isScalarValue c"
    by simp_all
  show ?case
  proof (cases "c < 0x10000")
    case True
    with IH show ?thesis by (simp add: fromCodePoints_def codeUnits_small)
  next
    case False
    from codeUnits_pair [OF c False] obtain hi lo where
      "codeUnits c = [hi, lo]" "isHighSurrogate hi" "isLowSurrogate lo"
      by blast
    with False IH show ?thesis
      by (simp add: fromCodePoints_def surrogate_plain astral_plain)
  qed
qed

lemma codePoints_wellFormed:
  "isWellFormed s \<Longrightarrow> \<forall>c\<in>set (codePoints s). isScalarValue c"
proof (induction s rule: codePoints.induct)
  case 1
  then show ?case by simp
next
  case (2 u)
  then show ?case by (simp add: isScalarValue_def)
next
  case (3 u v rest)
  show ?case
  proof (cases "isHighSurrogate u")
    case True
    with "3.prems" have low: "isLowSurrogate v" and rest: "isWellFormed rest"
      by simp_all
    from True have "u - 0xD800 \<le> 0x3FF" unfolding isHighSurrogate_def by arith
    then have "(u - 0xD800) * 0x400 \<le> 0x3FF * 0x400" by (rule mult_le_mono1)
    moreover from low have "v - 0xDC00 \<le> 0x3FF" unfolding isLowSurrogate_def by arith
    ultimately have "isScalarValue (0x10000 + (u - 0xD800) * 0x400 + (v - 0xDC00))"
      by (simp add: isScalarValue_def isHighSurrogate_def isLowSurrogate_def)
    with True low "3.IH"(1) rest show ?thesis by simp
  next
    case False
    with "3.prems" have "u < 0x10000" "\<not> isLowSurrogate u" "isWellFormed (v # rest)"
      by simp_all
    with False "3.IH"(2) show ?thesis by (simp add: isScalarValue_def)
  qed
qed

text \<open>What lower-casing gives, and what it leaves alone.\<close>

lemma lowerFrom_images:
  assumes fixed: "\<forall>cp. \<forall>d\<in>set (lowerCodePoint rt cp). lowerCodePoint rt d = [d]"
    and scalar: "\<forall>cp. isScalarValue cp \<longrightarrow> (\<forall>d\<in>set (lowerCodePoint rt cp). isScalarValue d)"
    and final: "lowerCodePoint rt 0x3C2 = [0x3C2]"
  shows "\<forall>c\<in>set cps. isScalarValue c \<Longrightarrow>
    \<forall>d\<in>set (lowerFrom rt before cps). lowerCodePoint rt d = [d] \<and> isScalarValue d"
proof (induction cps arbitrary: before)
  case Nil
  then show ?case by simp
next
  case (Cons c cps)
  have sigma: "isScalarValue 0x3C2"
    by (simp add: isScalarValue_def isHighSurrogate_def isLowSurrogate_def)
  from Cons.prems have c: "isScalarValue c" and rest: "\<forall>c\<in>set cps. isScalarValue c"
    by simp_all
  from fixed scalar c have "\<forall>d\<in>set (lowerCodePoint rt c). lowerCodePoint rt d = [d] \<and> isScalarValue d"
    by blast
  with Cons.IH [OF rest] final sigma show ?case by auto
qed

lemma lowerFrom_fixed:
  assumes sigma: "lowerCodePoint rt 0x3A3 \<noteq> [0x3A3]"
  shows "\<forall>z\<in>set zs. lowerCodePoint rt z = [z] \<Longrightarrow> lowerFrom rt before zs = zs"
proof (induction zs arbitrary: before)
  case Nil
  then show ?case by simp
next
  case (Cons z zs)
  then have z: "lowerCodePoint rt z = [z]" by simp
  with sigma have "z \<noteq> 0x3A3" by auto
  with Cons z show ?case by simp
qed

lemma underscoreFor_idem: "underscoreFor (underscoreFor u) = underscoreFor u"
  by (simp add: underscoreFor_def spaceOrHyphen_def isSpaceUnit_def)

lemma underscore_scalar: "isScalarValue c \<Longrightarrow> isScalarValue (underscoreFor c)"
  by (simp add: underscoreFor_def isScalarValue_def isHighSurrogate_def isLowSurrogate_def)

text \<open>
  C9, as the code has it. On a string without unpaired surrogates the sanitizer is
  idempotent: sanitizing the sanitized string gives the sanitized string. The Unicode
  data is taken to be such that lower-casing maps a code point to code points that
  lower-casing leaves alone, maps no code point to a surrogate, changes capital sigma,
  and leaves the final small sigma and the underscore alone.
\<close>

theorem toTableName_idempotent_wellFormed:
  assumes wf: "isWellFormed x"
    and fixed: "\<forall>cp. \<forall>d\<in>set (lowerCodePoint rt cp). lowerCodePoint rt d = [d]"
    and scalar: "\<forall>cp. isScalarValue cp \<longrightarrow> (\<forall>d\<in>set (lowerCodePoint rt cp). isScalarValue d)"
    and sigma: "lowerCodePoint rt 0x3A3 \<noteq> [0x3A3]"
    and final: "lowerCodePoint rt 0x3C2 = [0x3C2]"
    and underscore: "lowerCodePoint rt (of_char CHR ''_'') = [of_char CHR ''_'']"
  shows "toTableName rt (toTableName rt x) = toTableName rt x"
proof -
  let ?keep = "\<lambda>u. \<not> strippedPunctuation u"
  let ?ys = "lowerFrom rt [] (codePoints x)"
  let ?zs = "filter ?keep (map underscoreFor ?ys)"
  from codePoints_wellFormed [OF wf]
  have ys: "\<forall>d\<in>set ?ys. lowerCodePoint rt d = [d] \<and> isScalarValue d"
    by (rule lowerFrom_images [OF fixed scalar final])
  then have ys_scalar: "\<forall>c\<in>set ?ys. isScalarValue c"
    and us_scalar: "\<forall>c\<in>set (map underscoreFor ?ys). isScalarValue c"
    by (simp_all add: underscore_scalar)
  have first: "toTableName rt x = fromCodePoints ?zs"
    by (simp add: toTableName_def toLowerCase_def underscoreFor_fromCodePoints [OF ys_scalar]
        filter_fromCodePoints [OF us_scalar])
  have zs_scalar: "\<forall>c\<in>set ?zs. isScalarValue c"
    using us_scalar by auto
  have zs_fixed: "\<forall>z\<in>set ?zs. lowerCodePoint rt z = [z]"
  proof
    fix z
    assume "z \<in> set ?zs"
    then obtain y where y: "y \<in> set ?ys" and z: "z = underscoreFor y" by auto
    show "lowerCodePoint rt z = [z]"
    proof (cases "spaceOrHyphen y")
      case True
      with z underscore show ?thesis by (simp add: underscoreFor_def)
    next
      case False
      with z y ys show ?thesis by (simp add: underscoreFor_def)
    qed
  qed
  have zs_under: "map underscoreFor ?zs = ?zs"
    by (rule map_idI) (auto simp: underscoreFor_idem)
  have zs_keep: "filter ?keep ?zs = ?zs"
    by simp
  have "toTableName rt (fromCodePoints ?zs)
      = filter ?keep (map underscoreFor (fromCodePoints (lowerFrom rt [] ?zs)))"
    by (simp add: toTableName_def toLowerCase_def codePoints_fromCodePoints [OF zs_scalar])
  also have "\<dots> = filter ?keep (map underscoreFor (fromCodePoints ?zs))"
    by (simp only: lowerFrom_fixed [OF sigma zs_fixed])
  also have "\<dots> = fromCodePoints (filter ?keep (map underscoreFor ?zs))"
    using zs_scalar
    by (simp only: underscoreFor_fromCodePoints [OF zs_scalar] zs_under
        filter_fromCodePoints [OF zs_scalar])
  also have "\<dots> = fromCodePoints ?zs"
    by (simp only: zs_under zs_keep)
  finally show ?thesis by (simp only: first)
qed

text \<open>The definitions that evaluate the sanitizer on a given string.\<close>

lemmas sanitizer_eval =
  toTableName_def toLowerCase_def fromCodePoints_def codeUnits_def isHighSurrogate_def
  isLowSurrogate_def underscoreFor_def spaceOrHyphen_def isSpaceUnit_def strippedPunctuation_def
  exampleRuntime_def exampleLower_def units_def

lemma exampleLower_fixed: "\<forall>d\<in>set (exampleLower cp). exampleLower d = [d]"
  by (auto simp: exampleLower_def)

lemma exampleLower_scalar:
  "isScalarValue cp \<Longrightarrow> \<forall>d\<in>set (exampleLower cp). isScalarValue d"
  by (auto simp: exampleLower_def isScalarValue_def isHighSurrogate_def isLowSurrogate_def)

theorem toTableName_idempotent_wellFormed_witness:
  "isWellFormed (units ''Team A-1.'')
   \<and> lowerCodePoint exampleRuntime 0x3A3 \<noteq> [0x3A3]
   \<and> lowerCodePoint exampleRuntime 0x3C2 = [0x3C2]
   \<and> lowerCodePoint exampleRuntime (of_char CHR ''_'') = [of_char CHR ''_'']
   \<and> toTableName exampleRuntime (units ''Team A-1.'') = units ''team_a_1''
   \<and> toTableName exampleRuntime (toTableName exampleRuntime (units ''Team A-1.''))
       = toTableName exampleRuntime (units ''Team A-1.'')"
proof -
  have wf: "isWellFormed (units ''Team A-1.'')"
    by (simp add: units_def isHighSurrogate_def isLowSurrogate_def)
  have fixed: "\<forall>cp. \<forall>d\<in>set (lowerCodePoint exampleRuntime cp). lowerCodePoint exampleRuntime d = [d]"
    by (simp add: exampleRuntime_def exampleLower_fixed)
  have scalar: "\<forall>cp. isScalarValue cp \<longrightarrow>
      (\<forall>d\<in>set (lowerCodePoint exampleRuntime cp). isScalarValue d)"
    by (simp add: exampleRuntime_def exampleLower_scalar)
  have sigma: "lowerCodePoint exampleRuntime 0x3A3 \<noteq> [0x3A3]"
    by (simp add: exampleRuntime_def exampleLower_def)
  have final: "lowerCodePoint exampleRuntime 0x3C2 = [0x3C2]"
    by (simp add: exampleRuntime_def exampleLower_def)
  have underscore: "lowerCodePoint exampleRuntime (of_char CHR ''_'') = [of_char CHR ''_'']"
    by (simp add: exampleRuntime_def exampleLower_def)
  have val: "toTableName exampleRuntime (units ''Team A-1.'') = units ''team_a_1''"
    by (simp add: sanitizer_eval)
  from toTableName_idempotent_wellFormed [OF wf fixed scalar sigma final underscore]
    wf sigma final underscore val
  show ?thesis by simp
qed

text \<open>
  C9 as stated holds for every input string. On the letter a, a high surrogate, a full
  stop and a low surrogate, the first pass removes the full stop and leaves the two
  surrogates side by side; they are then one code point, a capital letter, which the
  second pass lower-cases.
\<close>

theorem toTableName_joins_surrogates:
  "toTableName exampleRuntime splitPair = [0x61, 0xD801, 0xDC00]
   \<and> toTableName exampleRuntime (toTableName exampleRuntime splitPair) = [0x61, 0xD801, 0xDC28]
   \<and> toTableName exampleRuntime (toTableName exampleRuntime splitPair)
       \<noteq> toTableName exampleRuntime splitPair"
  by (simp add: sanitizer_eval splitPair_def)

section \<open>The timestamp check\<close>

lemma timestampRejected_always: "timestampRejected rt time"
  by (simp add: timestampRejected_def valueOf_property_def isNaN_def)

lemma isValidInteger_JNum: "isValidInteger rt (JNum (of_int n))"
  by (simp add: isValidInteger_def isNaN_def)

lemma dateOrInvalid_int:
  "\<bar>n\<bar> \<le> 8640000000000000 \<Longrightarrow> dateOrInvalid rt (JNum (of_int n)) = DateAt n"
  by (simp add: dateOrInvalid_def isValidInteger_JNum timeClip_def)

lemma units_Nil: "units s = [] \<longleftrightarrow> s = []"
  by (simp add: units_def)

lemma abc_nonempty: "abc \<noteq> []"
  by (simp add: abc_def units_def)

lemma trim_abc: "trim abc = abc"
  by (simp add: trim_def abc_def units_def isSpaceUnit_def)

lemma trim_teamA: "trim (units ''teamA'') = units ''teamA''"
  by (simp add: trim_def units_def isSpaceUnit_def)

lemma sanitized_teamA: "toTableName exampleRuntime (units ''teamA'') = teama"
  by (simp add: toTableName_def toLowerCase_def fromCodePoints_def codeUnits_def
      isHighSurrogate_def isLowSurrogate_def underscoreFor_def spaceOrHyphen_def isSpaceUnit_def
      strippedPunctuation_def exampleRuntime_def exampleLower_def units_def teama_def)

lemma valid_teama: "isValidIdentifier teama"
  by (simp add: isValidIdentifier_def teama_def units_def)

lemma tryConnect_example:
  "tryConnect rt env now fails generate (Some connectBody) sessions c
     = Some (Returned (BadRequest
         (if isValidIdentifier (toTableName rt (units ''teamA'')) then InvalidTimestamp
          else InvalidUserName)), sessions, c)"
proof -
  have name: "member connectBody ''userName'' = JStr (units ''teamA'')"
    and secret: "member connectBody ''secret'' = JStr (units ''pw'')"
    by (simp_all add: member_def connectBody_def units_def)
  show ?thesis
    by (simp add: tryConnect_def name secret trim_teamA timestampRejected_always units_Nil Let_def)
qed

lemma tryLogEvent_example:
  "tryLogEvent rt now fails (Some logBody) [(abc, session0)] c
      = (BadRequest InvalidTimestamp, [(abc, session0\<lparr>lastAccess := now\<rparr>)], c)"
proof -
  have key: "member logBody ''sessionKey'' = JStr abc"
    and seq: "member logBody ''sequence'' = JNum (of_int 0)"
    by (simp_all add: member_def logBody_def units_def)
  show ?thesis
    using isValidInteger_JNum [of rt 0]
    by (simp add: tryLogEvent_def key seq trim_abc abc_nonempty session0_def
        timestampRejected_always Let_def
        del: of_int_0)
qed

text \<open>
  C1. The timestamp check should reject exactly the timecodes that do not parse to a
  valid instant. The timecode 1700000000000 is a valid integer and gives a valid date
  (its time value is a number), and yet the log request and the connect request that
  carry it are answered with the invalid timestamp rejection: the check tests the
  method itself, which is never a number. (A connect request is answered so whenever
  the sanitized user name is an identifier, as \<^verbatim>\<open>teamA\<close> is with the case mapping of
  the examples.)
\<close>

theorem valid_timecode_rejected:
  "dateOrInvalid rt (JNum 1700000000000) = DateAt 1700000000000
   \<and> valueOf_call (dateOrInvalid rt (JNum 1700000000000)) = Some 1700000000000
   \<and> timestampRejected rt (dateOrInvalid rt (JNum 1700000000000))
   \<and> tryLogEvent rt now fails (Some logBody) [(abc, session0)] c
      = (BadRequest InvalidTimestamp, [(abc, session0\<lparr>lastAccess := now\<rparr>)], c)
   \<and> tryConnect rt env now fails generate (Some connectBody) sessions c
      = Some (Returned (BadRequest
          (if isValidIdentifier (toTableName rt (units ''teamA'')) then InvalidTimestamp
           else InvalidUserName)), sessions, c)
   \<and> tryConnect exampleRuntime env now fails generate (Some connectBody) sessions c
      = Some (Returned (BadRequest InvalidTimestamp), sessions, c)"
  using dateOrInvalid_int [of 1700000000000 rt]
  by (simp add: tryLogEvent_example tryConnect_example sanitized_teamA valid_teama
      timestampRejected_always)

section \<open>Session indices\<close>

lemma maxSession_Max:
  "rs \<noteq> [] \<Longrightarrow> maxSession rs = Some (Max (col_session ` set rs))"
proof (induction rs)
  case Nil
  then show ?case by simp
next
  case (Cons r rs)
  show ?case
  proof (cases "rs = []")
    case True
    then show ?thesis by simp
  next
    case False
    with Cons.IH have "maxSession rs = Some (Max (col_session ` set rs))" by simp
    moreover from False have "col_session ` set rs \<noteq> {}" by simp
    ultimately show ?thesis by (simp add: Max_insert)
  qed
qed

lemma maxSession_snoc:
  "maxSession (rs @ [r]) =
     Some (case maxSession rs of None \<Rightarrow> col_session r | Some m \<Rightarrow> max m (col_session r))"
  by (induction rs) (auto split: option.splits)

lemma query_failed:
  "fails st \<Longrightarrow> query fails st stmt c = (Inl QueryFailed, c\<lparr>issued := issued c @ [stmt]\<rparr>)"
  by (simp add: query_def)

lemma query_Begin:
  "\<not> fails st \<Longrightarrow>
   query fails st Begin c =
     (Inr commandDone, c\<lparr>working := Some (view c), issued := issued c @ [Begin]\<rparr>)"
  by (cases "working c") (simp_all add: query_def view_def)

lemma query_TableCheck:
  "\<not> fails st \<Longrightarrow> working c = Some w \<Longrightarrow>
   query fails st (TableCheck n) c =
     (Inr (oneRow [(units ''exists'', JBool (w n \<noteq> None))]), c\<lparr>issued := issued c @ [TableCheck n]\<rparr>)"
  by (simp add: query_def view_def)

lemma query_CreateTable:
  "\<not> fails st \<Longrightarrow> working c = Some w \<Longrightarrow> w n = None \<Longrightarrow>
   query fails st (CreateTable n) c =
     (Inr commandDone, c\<lparr>working := Some (w(n \<mapsto> [])), issued := issued c @ [CreateTable n]\<rparr>)"
  by (simp add: query_def view_def store_def)

lemma query_MaxSession:
  "\<not> fails st \<Longrightarrow> working c = Some w \<Longrightarrow> w n = Some rs \<Longrightarrow>
   query fails st (MaxSession n) c =
     (Inr (oneRow [(units ''max'', (case maxSession rs of None \<Rightarrow> JNull | Some m \<Rightarrow> JNum (of_int m)))]),
      c\<lparr>issued := issued c @ [MaxSession n]\<rparr>)"
  by (simp add: query_def view_def)

lemma query_InsertRow:
  "\<not> fails st \<Longrightarrow> working c = Some w \<Longrightarrow> w n = Some rs \<Longrightarrow> col_data r \<noteq> None \<Longrightarrow>
   query fails st (InsertRow n r) c =
     (Inr commandDone, c\<lparr>working := Some (w(n \<mapsto> rs @ [r])), issued := issued c @ [InsertRow n r]\<rparr>)"
  by (auto simp: query_def view_def store_def Let_def)

lemma query_Commit:
  "\<not> fails st \<Longrightarrow> working c = Some w \<Longrightarrow>
   query fails st Commit c =
     (Inr commandDone, c\<lparr>committed := w, working := None, issued := issued c @ [Commit]\<rparr>)"
  by (simp add: query_def view_def)

lemma tableMissing_oneRow:
  "tableMissing rt (oneRow [(units ''exists'', JBool b)]) = Inr (\<not> b)"
  by (simp add: tableMissing_def oneRow_def member_def)

lemma nextSessionId_oneRow:
  "nextSessionId rt (oneRow [(units ''max'', (case mx of None \<Rightarrow> JNull | Some m \<Rightarrow> JNum (of_int m)))])
     = Inr ((case mx of None \<Rightarrow> 0 | Some m \<Rightarrow> m) + 1)"
proof (cases mx)
  case None
  then show ?thesis
    by (simp add: nextSessionId_def oneRow_def member_def isValidInteger_def)
next
  case (Some m)
  then show ?thesis
    using isValidInteger_JNum [of rt m]
    by (simp add: nextSessionId_def oneRow_def member_def)
qed

lemma entryValues_data: "col_data (entryValues sid ver sec ev time d) = stringify d"
  by (simp add: entryValues_def)

lemma sessionStart_ok:
  assumes "\<not> fails StepSessionStart" "\<not> fails StepCommit"
    and "working c = Some w" "w name = Some rs"
  shows "sessionStart fails name ver sec time setupId sid msg c =
     (Returned \<lparr>sessionId = sid, message = msg\<rparr>,
      c\<lparr>committed :=
          w(name \<mapsto> rs @ [entryValues sid ver sec (units ''SessionStart'') time (JObj [(units ''setup'', JStr setupId)])]),
        working := None,
        issued := issued c @
          [InsertRow name (entryValues sid ver sec (units ''SessionStart'') time (JObj [(units ''setup'', JStr setupId)])),
           Commit]\<rparr>)"
  using assms
  by (simp add: sessionStart_def recordEntry_def query_InsertRow query_Commit entryValues_data)

lemma tryBeginSession_new:
  assumes auth: "authenticate env name secret"
    and ok: "\<forall>st. \<not> fails st"
    and absent: "view c name = None"
  shows "tryBeginSession rt env fails name secret ver sec time setupId c =
     (Returned \<lparr>sessionId = 0, message = CreatedTable name 0\<rparr>,
      c\<lparr>committed :=
          (view c)(name \<mapsto> [entryValues 0 ver sec (units ''SessionStart'') time (JObj [(units ''setup'', JStr setupId)])]),
        working := None,
        issued := issued c @ [Begin, TableCheck name, CreateTable name,
          InsertRow name (entryValues 0 ver sec (units ''SessionStart'') time (JObj [(units ''setup'', JStr setupId)])),
          Commit]\<rparr>)"
  using auth absent
  by (simp add: tryBeginSession_def ok query_Begin query_TableCheck tableMissing_oneRow
      createTable_def query_CreateTable sessionStart_ok)

lemma tryBeginSession_existing:
  assumes auth: "authenticate env name secret"
    and ok: "\<forall>st. \<not> fails st"
    and present: "view c name = Some rs"
    and sid: "sid = (case maxSession rs of None \<Rightarrow> 0 | Some m \<Rightarrow> m) + 1"
  shows "tryBeginSession rt env fails name secret ver sec time setupId c =
     (Returned \<lparr>sessionId = sid, message = Authenticated name sid\<rparr>,
      c\<lparr>committed :=
          (view c)(name \<mapsto> rs @ [entryValues sid ver sec (units ''SessionStart'') time (JObj [(units ''setup'', JStr setupId)])]),
        working := None,
        issued := issued c @ [Begin, TableCheck name, MaxSession name,
          InsertRow name (entryValues sid ver sec (units ''SessionStart'') time (JObj [(units ''setup'', JStr setupId)])),
          Commit]\<rparr>)"
  using auth present sid
  by (simp add: tryBeginSession_def ok query_Begin query_TableCheck tableMissing_oneRow
      query_MaxSession nextSessionId_oneRow sessionStart_ok)

text \<open>What one successful call leaves behind, and the index it returns.\<close>

lemma entryValues_session: "col_session (entryValues sid ver sec ev time d) = sid"
  by (simp add: entryValues_def)

lemma tryBeginSession_ok:
  assumes auth: "authenticate env name secret"
    and ok: "\<forall>st. \<not> fails st"
  shows "\<exists>r c' rs' rw.
      tryBeginSession rt env fails name secret ver sec time setupId c = (Returned r, c')
    \<and> sessionId r =
        (case view c name of
           None \<Rightarrow> 0
         | Some rs \<Rightarrow> if rs = [] then 1 else Max (col_session ` set rs) + 1)
    \<and> working c' = None \<and> committed c' name = Some (rs' @ [rw])
    \<and> col_session rw = sessionId r
    \<and> (case maxSession rs' of None \<Rightarrow> True | Some m \<Rightarrow> m \<le> sessionId r)"
proof (cases "view c name")
  case None
  let ?rw = "entryValues 0 ver sec (units ''SessionStart'') time (JObj [(units ''setup'', JStr setupId)])"
  let ?c' = "c\<lparr>committed := (view c)(name \<mapsto> [?rw]), working := None,
        issued := issued c @ [Begin, TableCheck name, CreateTable name, InsertRow name ?rw, Commit]\<rparr>"
  let ?r = "\<lparr>sessionId = 0, message = CreatedTable name 0\<rparr>"
  have "tryBeginSession rt env fails name secret ver sec time setupId c = (Returned ?r, ?c')"
    by (rule tryBeginSession_new [OF auth ok None])
  moreover have "sessionId ?r =
        (case view c name of
           None \<Rightarrow> 0
         | Some rs \<Rightarrow> if rs = [] then 1 else Max (col_session ` set rs) + 1)"
    by (simp add: None)
  moreover have "working ?c' = None" by simp
  moreover have "committed ?c' name = Some ([] @ [?rw])" by simp
  moreover have "col_session ?rw = sessionId ?r" by (simp add: entryValues_session)
  moreover have "(case maxSession [] of None \<Rightarrow> True | Some m \<Rightarrow> m \<le> sessionId ?r)" by simp
  ultimately show ?thesis by blast
next
  case (Some rs)
  define sid where "sid = (case maxSession rs of None \<Rightarrow> 0 | Some m \<Rightarrow> m) + 1"
  let ?rw = "entryValues sid ver sec (units ''SessionStart'') time (JObj [(units ''setup'', JStr setupId)])"
  let ?c' = "c\<lparr>committed := (view c)(name \<mapsto> rs @ [?rw]), working := None,
        issued := issued c @ [Begin, TableCheck name, MaxSession name, InsertRow name ?rw, Commit]\<rparr>"
  let ?r = "\<lparr>sessionId = sid, message = Authenticated name sid\<rparr>"
  have "tryBeginSession rt env fails name secret ver sec time setupId c = (Returned ?r, ?c')"
    by (rule tryBeginSession_existing [OF auth ok Some sid_def])
  moreover have "sessionId ?r =
        (case view c name of
           None \<Rightarrow> 0
         | Some rs \<Rightarrow> if rs = [] then 1 else Max (col_session ` set rs) + 1)"
    by (cases "rs = []") (simp_all add: Some sid_def maxSession_Max)
  moreover have "working ?c' = None" by simp
  moreover have "committed ?c' name = Some (rs @ [?rw])" by simp
  moreover have "col_session ?rw = sessionId ?r" by (simp add: entryValues_session)
  moreover have "(case maxSession rs of None \<Rightarrow> True | Some m \<Rightarrow> m \<le> sessionId ?r)"
    by (simp add: sid_def split: option.splits)
  ultimately show ?thesis by blast
qed

lemma tryBeginSession_next:
  assumes auth: "authenticate env name secret"
    and ok: "\<forall>st. \<not> fails st"
    and idle: "working c = None"
    and tbl: "committed c name = Some (rs @ [rw])"
    and top: "(case maxSession rs of None \<Rightarrow> True | Some m \<Rightarrow> m \<le> col_session rw)"
  shows "\<exists>r c'. tryBeginSession rt env fails name secret ver sec time setupId c = (Returned r, c')
    \<and> sessionId r = col_session rw + 1"
proof -
  from idle tbl have present: "view c name = Some (rs @ [rw])"
    by (simp add: view_def)
  from top have "(case maxSession (rs @ [rw]) of None \<Rightarrow> 0 | Some m \<Rightarrow> m) + 1 = col_session rw + 1"
    by (simp add: maxSession_snoc split: option.splits)
  then have sid: "col_session rw + 1 = (case maxSession (rs @ [rw]) of None \<Rightarrow> 0 | Some m \<Rightarrow> m) + 1"
    by simp
  show ?thesis
    using tryBeginSession_existing [OF auth ok present sid] by simp
qed

text \<open>
  C2, as the code has it. On a connect that authenticates and meets no storage failure,
  the session index is 0 when the client's table is absent, 1 when the table is there
  without rows, and the greatest session index of the table plus 1 when it has rows;
  the next such connect for the same name gets the index after it.
\<close>

theorem sessionIndex_assignment:
  assumes auth: "authenticate env name secret"
    and ok: "\<forall>st. \<not> fails st"
  shows "\<exists>r c' r2 c2.
      tryBeginSession rt env fails name secret ver sec time setupId c = (Returned r, c')
    \<and> sessionId r =
        (case view c name of
           None \<Rightarrow> 0
         | Some rs \<Rightarrow> if rs = [] then 1 else Max (col_session ` set rs) + 1)
    \<and> tryBeginSession rt env fails name secret ver2 sec2 time2 setupId2 c' = (Returned r2, c2)
    \<and> sessionId r2 = sessionId r + 1"
proof -
  from tryBeginSession_ok [OF auth ok]
  obtain r c' rs' rw where first:
    "tryBeginSession rt env fails name secret ver sec time setupId c = (Returned r, c')"
    "sessionId r =
        (case view c name of
           None \<Rightarrow> 0
         | Some rs \<Rightarrow> if rs = [] then 1 else Max (col_session ` set rs) + 1)"
    and after: "working c' = None" "committed c' name = Some (rs' @ [rw])"
    "col_session rw = sessionId r"
    "(case maxSession rs' of None \<Rightarrow> True | Some m \<Rightarrow> m \<le> sessionId r)"
    by blast
  from after have top: "(case maxSession rs' of None \<Rightarrow> True | Some m \<Rightarrow> m \<le> col_session rw)"
    by (simp split: option.splits)
  from tryBeginSession_next [OF auth ok after(1) after(2) top]
  obtain r2 c2 where
    "tryBeginSession rt env fails name secret ver2 sec2 time2 setupId2 c' = (Returned r2, c2)"
    "sessionId r2 = col_session rw + 1"
    by blast
  with first after(3) show ?thesis by auto
qed

theorem sessionIndex_assignment_witness:
  "authenticate exampleEnv teama (units ''pw'') \<and> (\<forall>st. \<not> noFault st)
   \<and> view emptyStore teama = None
   \<and> (\<exists>r c' r2 c2.
        tryBeginSession exampleRuntime exampleEnv noFault teama (units ''pw'') (units ''1.0'') (units ''Menu'')
          (DateAt 0) (units ''setup'') emptyStore = (Returned r, c')
      \<and> sessionId r = 0
      \<and> tryBeginSession exampleRuntime exampleEnv noFault teama (units ''pw'') (units ''1.0'') (units ''Menu'')
          (DateAt 1) (units ''setup'') c' = (Returned r2, c2)
      \<and> sessionId r2 = 1)
   \<and> (\<exists>r c' r2 c2.
        tryBeginSession exampleRuntime exampleEnv noFault teama (units ''pw'') (units ''1.0'') (units ''Menu'')
          (DateAt 0) (units ''setup'') busyStore = (Returned r, c')
      \<and> sessionId r = 5
      \<and> tryBeginSession exampleRuntime exampleEnv noFault teama (units ''pw'') (units ''1.0'') (units ''Menu'')
          (DateAt 1) (units ''setup'') c' = (Returned r2, c2)
      \<and> sessionId r2 = 6)"
proof -
  have auth: "authenticate exampleEnv teama (units ''pw'')"
    by (simp add: authenticate_def exampleEnv_def)
  have ok: "\<forall>st. \<not> noFault st"
    by (simp add: noFault_def)
  have absent: "view emptyStore teama = None"
    by (simp add: view_def emptyStore_def)
  have busy: "view busyStore teama =
      Some [entryValues 0 (units ''1.0'') (units ''Menu'') (units ''SessionStart'') (DateAt 0) (JObj []),
            entryValues 4 (units ''1.0'') (units ''Menu'') (units ''SessionStart'') (DateAt 0) (JObj [])]"
    by (simp add: view_def busyStore_def)
  have first: "\<exists>r c' r2 c2.
        tryBeginSession exampleRuntime exampleEnv noFault teama (units ''pw'') (units ''1.0'') (units ''Menu'')
          (DateAt 0) (units ''setup'') emptyStore = (Returned r, c')
      \<and> sessionId r = 0
      \<and> tryBeginSession exampleRuntime exampleEnv noFault teama (units ''pw'') (units ''1.0'') (units ''Menu'')
          (DateAt 1) (units ''setup'') c' = (Returned r2, c2)
      \<and> sessionId r2 = 1"
    using sessionIndex_assignment [OF auth ok, where rt = exampleRuntime and ver = "units ''1.0''"
        and sec = "units ''Menu''" and time = "DateAt 0" and setupId = "units ''setup''" and c = emptyStore
        and ?ver2.0 = "units ''1.0''" and ?sec2.0 = "units ''Menu''" and ?time2.0 = "DateAt 1"
        and ?setupId2.0 = "units ''setup''"]
    by (auto simp: absent)
  have later: "\<exists>r c' r2 c2.
        tryBeginSession exampleRuntime exampleEnv noFault teama (units ''pw'') (units ''1.0'') (units ''Menu'')
          (DateAt 0) (units ''setup'') busyStore = (Returned r, c')
      \<and> sessionId r = 5
      \<and> tryBeginSession exampleRuntime exampleEnv noFault teama (units ''pw'') (units ''1.0'') (units ''Menu'')
          (DateAt 1) (units ''setup'') c' = (Returned r2, c2)
      \<and> sessionId r2 = 6"
    using sessionIndex_assignment [OF auth ok, where rt = exampleRuntime and ver = "units ''1.0''"
        and sec = "units ''Menu''" and time = "DateAt 0" and setupId = "units ''setup''" and c = busyStore
        and ?ver2.0 = "units ''1.0''" and ?sec2.0 = "units ''Menu''" and ?time2.0 = "DateAt 1"
        and ?setupId2.0 = "units ''setup''"]
    by (auto simp: busy entryValues_def)
  from auth ok absent first later show ?thesis by blast
qed

text \<open>
  C2 as stated gives index 0 on a table that is there and empty; the code gives 1.
\<close>

theorem empty_table_sessionIndex:
  "view emptyTableStore teama = Some []
   \<and> fst (tryBeginSession exampleRuntime exampleEnv noFault teama (units ''pw'') (units ''1.0'') (units ''Menu'')
          (DateAt 0) (units ''setup'') emptyTableStore)
     = Returned \<lparr>sessionId = 1, message = Authenticated teama 1\<rparr>"
proof -
  have auth: "authenticate exampleEnv teama (units ''pw'')"
    by (simp add: authenticate_def exampleEnv_def)
  have ok: "\<forall>st. \<not> noFault st"
    by (simp add: noFault_def)
  have present: "view emptyTableStore teama = Some []"
    by (simp add: view_def emptyTableStore_def)
  show ?thesis
    using tryBeginSession_existing [OF auth ok present, where sid = 1] present by simp
qed

section \<open>Failures while a session begins\<close>

text \<open>
  C3. When a step of the storage protocol fails, the whole transaction should be
  rolled back. Here the SessionStart insert fails for a new client, after the table
  was created: the function returns the failure result (session index -1 with the
  error), but the statements it has sent end with the failed insert, with no ROLLBACK
  among them, and the connection is released with the transaction still open and the
  created table pending in it.
\<close>

theorem sessionStart_failure_no_rollback:
  "tryBeginSession rt exampleEnv (failsAt StepSessionStart) teama (units ''pw'') ver sec time setupId
       emptyStore
     = (Returned \<lparr>sessionId = - 1, message = SessionStartError teama QueryFailed\<rparr>,
        \<lparr>committed = Map.empty,
         working = Some [teama \<mapsto> []],
         issued = [Begin, TableCheck teama, CreateTable teama,
           InsertRow teama
             (entryValues 0 ver sec (units ''SessionStart'') time (JObj [(units ''setup'', JStr setupId)]))]\<rparr>)"
  by (simp add: tryBeginSession_def authenticate_def exampleEnv_def failsAt_def emptyStore_def
      query_Begin query_TableCheck tableMissing_oneRow createTable_def query_CreateTable
      sessionStart_def recordEntry_def query_failed sessionStartFailed_def view_def)

text \<open>
  No path of \<^verbatim>\<open>tryBeginSession\<close> sends ROLLBACK, and an exception escapes it only
  when no client could be taken from the pool.
\<close>

lemma run_issued: "issued (snd (run stmt c)) = issued c"
  by (cases stmt) (simp_all add: store_def split: option.splits)

lemma query_issued: "query fails st stmt c = (x, c') \<Longrightarrow> issued c' = issued c @ [stmt]"
  using run_issued [of stmt "c\<lparr>issued := issued c @ [stmt]\<rparr>"]
  by (auto simp: query_def Let_def split: if_splits)

lemma sessionStart_issued:
  assumes "sessionStart fails name ver sec time setupId sid msg c = (x, c')"
  shows "Rollback \<in> set (issued c') \<longleftrightarrow> Rollback \<in> set (issued c)"
  using assms
  by (auto simp: sessionStart_def recordEntry_def sessionStartFailed_def
      split: prod.splits sum.splits dest!: query_issued)

lemma tryBeginSession_never_rolls_back:
  assumes "tryBeginSession rt env fails name secret ver sec time setupId c = (x, c')"
  shows "Rollback \<in> set (issued c') \<longleftrightarrow> Rollback \<in> set (issued c)"
  using assms
  by (auto simp: tryBeginSession_def createTable_def sessionStartFailed_def
      split: if_splits prod.splits sum.splits bool.splits
      dest!: query_issued sessionStart_issued)

lemma tryBeginSession_throws:
  assumes "tryBeginSession rt env fails name secret ver sec time setupId c = (Threw e, c')"
  shows "fails StepConnect"
  using assms
  by (auto simp: tryBeginSession_def sessionStartFailed_def sessionStart_def
      split: if_splits prod.splits sum.splits bool.splits)

section \<open>Properties of double arithmetic\<close>
















section \<open>Logging an event\<close>

text \<open>The three ways the part after the timestamp check ends.\<close>

lemma tryLogEvent_record_cases:
  assumes "tryLogEvent_record fails key session body time sessions c = (resp, sessions', c')"
  obtains
    (invalid) "\<not> isValidString (member body ''eventType'')" "resp = BadRequest InvalidEventType"
      "sessions' = sessions" "c' = c"
  | (failed) e where
      "recordEntry fails StepLogInsert (table session) (id' session) (version session)
         (textOrPlaceholder (member body ''section'')) (textOrPlaceholder (member body ''eventType''))
         time (normalizeData (member body ''data'')) c = (Inl e, c')"
      "resp = InternalError (textOrPlaceholder (member body ''eventType'')) (table session) e"
      "sessions' = sessions"
  | (written) r where
      "recordEntry fails StepLogInsert (table session) (id' session) (version session)
         (textOrPlaceholder (member body ''section'')) (textOrPlaceholder (member body ''eventType''))
         time (normalizeData (member body ''data'')) c = (Inr r, c')"
      "resp = Success"
      "sessions' =
         (case map_of sessions key of
            None \<Rightarrow> sessions
          | Some current \<Rightarrow>
              AList.update key
                (current\<lparr>nextSequence := addOne (intOf (member body ''sequence''))\<rparr>) sessions)"
  using assms
  by (auto simp: tryLogEvent_record_def tryLogEvent_write_def tryLogEvent_resume_def Let_def
      split: if_splits prod.splits sum.splits)



lemma recordEntry_fault:
  "fails st \<Longrightarrow> \<exists>c'. recordEntry fails st tbl sid ver sec ev time d c = (Inl QueryFailed, c')"
  by (simp add: recordEntry_def query_failed)

text \<open>The ways the whole handler ends once the session is found.\<close>

lemma tryLogEvent_found:
  assumes key: "isValidString (member body ''sessionKey'')"
    and found: "map_of sessions (trim (stringOf (member body ''sessionKey''))) = Some s"
  shows "tryLogEvent rt now fails (Some body) sessions c =
     (let key = trim (stringOf (member body ''sessionKey''));
          session = s\<lparr>lastAccess := now\<rparr>;
          sessions1 = AList.update key session sessions
      in if \<not> isValidInteger rt (member body ''sequence'')
         then (BadRequest InvalidSequence, sessions1, c)
         else if intOf (member body ''sequence'') < nextSequence s
         then (Success, sessions1, c)
         else if timestampRejected rt (dateOrInvalid rt (member body ''timecode''))
         then (BadRequest InvalidTimestamp, sessions1, c)
         else tryLogEvent_record fails key session body
                (dateOrInvalid rt (member body ''timecode'')) sessions1 c)"
  using key found by (simp add: tryLogEvent_def Let_def)

text \<open>
  C4. A log request on a cached session whose sequence number is an integer below the
  session's \<open>nextSequence\<close> is answered with success at once: nothing is sent to
  the store, and of the session only \<open>lastAccess\<close> changes. Sent a second time,
  the same request is answered the same way, so the two together write nothing.
\<close>

theorem duplicate_event_ignored:
  assumes key: "isValidString (member body ''sessionKey'')"
    and found: "map_of sessions (trim (stringOf (member body ''sessionKey''))) = Some s"
    and int: "isValidInteger rt (member body ''sequence'')"
    and dup: "intOf (member body ''sequence'') < nextSequence s"
  shows "tryLogEvent rt now fails (Some body) sessions c =
       (Success, AList.update (trim (stringOf (member body ''sessionKey''))) (s\<lparr>lastAccess := now\<rparr>) sessions, c)
     \<and> tryLogEvent rt now2 fails2 (Some body)
         (AList.update (trim (stringOf (member body ''sessionKey''))) (s\<lparr>lastAccess := now\<rparr>) sessions) c =
       (Success, AList.update (trim (stringOf (member body ''sessionKey''))) (s\<lparr>lastAccess := now2\<rparr>) sessions, c)"
proof -
  let ?key = "trim (stringOf (member body ''sessionKey''))"
  let ?s1 = "s\<lparr>lastAccess := now\<rparr>"
  have first: "tryLogEvent rt now fails (Some body) sessions c =
       (Success, AList.update ?key ?s1 sessions, c)"
    using int dup by (simp add: tryLogEvent_found [OF key found] Let_def)
  have found2: "map_of (AList.update ?key ?s1 sessions) ?key = Some ?s1"
    by (simp add: update_conv')
  have dup2: "intOf (member body ''sequence'') < nextSequence ?s1"
    using dup by simp
  have second: "tryLogEvent rt now2 fails2 (Some body) (AList.update ?key ?s1 sessions) c =
       (Success, AList.update ?key (s\<lparr>lastAccess := now2\<rparr>) sessions, c)"
    using int dup2 by (simp add: tryLogEvent_found [OF key found2] Let_def)
  from first second show ?thesis by simp
qed

lemma logBody_members:
  "member logBody ''sessionKey'' = JStr abc"
  "member logBody ''sequence'' = JNum 0"
  "member logBody ''eventType'' = JStr (units ''LevelStart'')"
  "member logBody ''section'' = JUndefined"
  "member logBody ''data'' = JUndefined"
  by (simp_all add: member_def logBody_def units_def abc_def)

theorem duplicate_event_ignored_witness:
  "isValidString (member logBody ''sessionKey'')
   \<and> map_of [(abc, session0\<lparr>nextSequence := 1\<rparr>)] (trim (stringOf (member logBody ''sessionKey'')))
       = Some (session0\<lparr>nextSequence := 1\<rparr>)
   \<and> isValidInteger exampleRuntime (member logBody ''sequence'')
   \<and> intOf (member logBody ''sequence'') < nextSequence (session0\<lparr>nextSequence := 1\<rparr>)
   \<and> tryLogEvent exampleRuntime 9 noFault (Some logBody) [(abc, session0\<lparr>nextSequence := 1\<rparr>)]
         emptyTableStore
       = (Success, [(abc, session0\<lparr>nextSequence := 1, lastAccess := 9\<rparr>)], emptyTableStore)
   \<and> tryLogEvent exampleRuntime 10 noFault (Some logBody)
         [(abc, session0\<lparr>nextSequence := 1, lastAccess := 9\<rparr>)] emptyTableStore
       = (Success, [(abc, session0\<lparr>nextSequence := 1, lastAccess := 10\<rparr>)], emptyTableStore)"
proof -
  have key: "isValidString (member logBody ''sessionKey'')"
    by (simp add: logBody_members abc_nonempty)
  have found: "map_of [(abc, session0\<lparr>nextSequence := 1\<rparr>)]
      (trim (stringOf (member logBody ''sessionKey''))) = Some (session0\<lparr>nextSequence := 1\<rparr>)"
    by (simp add: logBody_members trim_abc)
  have int: "isValidInteger exampleRuntime (member logBody ''sequence'')"
    using isValidInteger_JNum [of exampleRuntime 0] by (simp add: logBody_members)
  have dup: "intOf (member logBody ''sequence'') < nextSequence (session0\<lparr>nextSequence := 1\<rparr>)"
    by (simp add: logBody_members)
  have key_abc: "trim (stringOf (member logBody ''sessionKey'')) = abc"
    by (simp add: logBody_members trim_abc)
  show ?thesis
    using duplicate_event_ignored [OF key found int dup, of 9 noFault emptyTableStore 10 noFault]
      key found int dup
    by (simp add: key_abc)
qed

lemma tryLogEvent_record_sessions:
  assumes run: "tryLogEvent_record fails key session body time sessions c = (resp, sessions', c')"
  shows "(resp \<noteq> Success \<and> sessions' = sessions)
       \<or> (resp = Success \<and> sessions' =
            (case map_of sessions key of
               None \<Rightarrow> sessions
             | Some current \<Rightarrow>
                 AList.update key
                   (current\<lparr>nextSequence := addOne (intOf (member body ''sequence''))\<rparr>) sessions))"
  using run by (cases rule: tryLogEvent_record_cases) simp_all




lemma placeholder_LevelStart: "textOrPlaceholder (JStr (units ''LevelStart'')) = units ''LevelStart''"
  by (simp add: textOrPlaceholder_def trim_def units_def isSpaceUnit_def Let_def)

lemma placeholder_undefined: "textOrPlaceholder JUndefined = units ''?''"
  by (simp add: textOrPlaceholder_def)




lemma tryLogEvent_write_failing:
  assumes "member body ''eventType'' = JStr (units ''LevelStart'')"
    and "member body ''section'' = JUndefined"
  shows "tryLogEvent_write (failsAt StepLogInsert) session0 body (DateAt 1700000000000) c =
     (Inr (units ''LevelStart'', Inl QueryFailed),
      c\<lparr>issued := issued c @ [InsertRow teama (levelStart (normalizeData (member body ''data'')))]\<rparr>)"
  using assms
  by (simp add: tryLogEvent_write_def placeholder_LevelStart placeholder_undefined units_Nil
      recordEntry_def query_def failsAt_def session0_def levelStart_def Let_def)


lemma normalizeData_undefined: "normalizeData JUndefined = JObj []"
  by (simp add: normalizeData_def)




lemma tryLogEvent_record_failing:
  "tryLogEvent_record (failsAt StepLogInsert) abc session0 logBody (DateAt 1700000000000)
       [(abc, session0)] emptyTableStore
     = (InternalError (units ''LevelStart'') teama QueryFailed, [(abc, session0)],
        emptyTableStore\<lparr>issued := [InsertRow teama (levelStart (JObj []))]\<rparr>)"
  using tryLogEvent_write_failing [OF logBody_members(3) logBody_members(4), of emptyTableStore]
  by (simp add: tryLogEvent_record_def tryLogEvent_resume_def logBody_members
      normalizeData_undefined session0_def emptyTableStore_def)




lemma tryLogEvent_touch:
  assumes key: "isValidString (member body ''sessionKey'')"
    and found: "map_of sessions (trim (stringOf (member body ''sessionKey''))) = Some s"
    and run: "tryLogEvent rt now fails (Some body) sessions c = (resp, sessions', c')"
  shows "\<exists>s'. map_of sessions' (trim (stringOf (member body ''sessionKey''))) = Some s'
          \<and> lastAccess s' = now
          \<and> table s' = table s \<and> id' s' = id' s \<and> version s' = version s
          \<and> section' s' = section' s
          \<and> (resp \<noteq> Success \<longrightarrow> s' = s\<lparr>lastAccess := now\<rparr>)"
proof -
  let ?key = "trim (stringOf (member body ''sessionKey''))"
  let ?session = "s\<lparr>lastAccess := now\<rparr>"
  let ?sessions1 = "AList.update ?key ?session sessions"
  have same: "sessions' = ?sessions1 \<Longrightarrow> ?thesis"
    by (simp add: update_conv')
  have found1: "map_of ?sessions1 ?key = Some ?session"
    by (simp add: update_conv')
  note unfolded = run [unfolded tryLogEvent_found [OF key found]]
  show ?thesis
  proof (cases "\<not> isValidInteger rt (member body ''sequence'')
      \<or> intOf (member body ''sequence'') < nextSequence s
      \<or> timestampRejected rt (dateOrInvalid rt (member body ''timecode''))")
    case True
    with unfolded have "sessions' = ?sessions1"
      by (auto simp: Let_def split: if_splits)
    then show ?thesis by (rule same)
  next
    case False
    with unfolded have tail: "tryLogEvent_record fails ?key ?session body
        (dateOrInvalid rt (member body ''timecode'')) ?sessions1 c = (resp, sessions', c')"
      by (simp add: Let_def)
    from tryLogEvent_record_sessions [OF tail] show ?thesis
    proof
      assume "resp \<noteq> Success \<and> sessions' = ?sessions1"
      then show ?thesis using same by simp
    next
      assume "resp = Success \<and> sessions' =
          (case map_of ?sessions1 ?key of
             None \<Rightarrow> ?sessions1
           | Some current \<Rightarrow>
               AList.update ?key
                 (current\<lparr>nextSequence := addOne (intOf (member body ''sequence''))\<rparr>) ?sessions1)"
      then have "resp = Success" and "sessions' = AList.update ?key
          (?session\<lparr>nextSequence := addOne (intOf (member body ''sequence''))\<rparr>) ?sessions1"
        by (simp_all only: found1 option.case)
      then show ?thesis by (simp add: update_conv')
    qed
  qed
qed

text \<open>
  C10. A log request that finds its session sets the session's \<open>lastAccess\<close> to the
  current time whatever the answer is, and leaves the table, index, version and
  section of the session alone; when the request is rejected the session is the old
  one with the new \<open>lastAccess\<close> and nothing else. The part of the handler after
  the timestamp check leaves the cache untouched whenever it rejects, the failed write
  included.
\<close>

theorem lastAccess_refreshed:
  "(isValidString (member body ''sessionKey'')
      \<and> map_of sessions (trim (stringOf (member body ''sessionKey''))) = Some s
      \<and> tryLogEvent rt now fails (Some body) sessions c = (resp, sessions', c')
     \<longrightarrow> (\<exists>s'. map_of sessions' (trim (stringOf (member body ''sessionKey''))) = Some s'
          \<and> lastAccess s' = now
          \<and> table s' = table s \<and> id' s' = id' s \<and> version s' = version s
          \<and> section' s' = section' s
          \<and> (resp \<noteq> Success \<longrightarrow> s' = s\<lparr>lastAccess := now\<rparr>)))
   \<and> (tryLogEvent_record fails2 key session body2 time sessions2 c2 = (resp2, sessions2', c2')
      \<and> resp2 \<noteq> Success
     \<longrightarrow> sessions2' = sessions2)"
proof (intro conjI impI)
  assume "isValidString (member body ''sessionKey'')
      \<and> map_of sessions (trim (stringOf (member body ''sessionKey''))) = Some s
      \<and> tryLogEvent rt now fails (Some body) sessions c = (resp, sessions', c')"
  then have "isValidString (member body ''sessionKey'')"
    "map_of sessions (trim (stringOf (member body ''sessionKey''))) = Some s"
    "tryLogEvent rt now fails (Some body) sessions c = (resp, sessions', c')"
    by simp_all
  then show "\<exists>s'. map_of sessions' (trim (stringOf (member body ''sessionKey''))) = Some s'
          \<and> lastAccess s' = now
          \<and> table s' = table s \<and> id' s' = id' s \<and> version s' = version s
          \<and> section' s' = section' s
          \<and> (resp \<noteq> Success \<longrightarrow> s' = s\<lparr>lastAccess := now\<rparr>)"
    by (rule tryLogEvent_touch)
next
  assume "tryLogEvent_record fails2 key session body2 time sessions2 c2 = (resp2, sessions2', c2')
      \<and> resp2 \<noteq> Success"
  then show "sessions2' = sessions2"
    using tryLogEvent_record_sessions by blast
qed

theorem lastAccess_refreshed_witness:
  "isValidString (member logBody ''sessionKey'')
   \<and> map_of [(abc, session0)] (trim (stringOf (member logBody ''sessionKey''))) = Some session0
   \<and> tryLogEvent exampleRuntime 9 noFault (Some logBody) [(abc, session0)] emptyTableStore
       = (BadRequest InvalidTimestamp, [(abc, session0\<lparr>lastAccess := 9\<rparr>)], emptyTableStore)
   \<and> BadRequest InvalidTimestamp \<noteq> Success
   \<and> (\<exists>s'. map_of [(abc, session0\<lparr>lastAccess := 9\<rparr>)]
              (trim (stringOf (member logBody ''sessionKey''))) = Some s'
          \<and> lastAccess s' = 9 \<and> s' = session0\<lparr>lastAccess := 9\<rparr>)
   \<and> tryLogEvent_record (failsAt StepLogInsert) abc session0 logBody (DateAt 1700000000000)
         [(abc, session0)] emptyTableStore
       = (InternalError (units ''LevelStart'') teama QueryFailed, [(abc, session0)],
          emptyTableStore\<lparr>issued := [InsertRow teama (levelStart (JObj []))]\<rparr>)
   \<and> InternalError (units ''LevelStart'') teama QueryFailed \<noteq> Success"
  using lastAccess_refreshed [where body = logBody and sessions = "[(abc, session0)]"
      and s = session0 and rt = exampleRuntime and now = 9 and fails = noFault
      and c = emptyTableStore and resp = "BadRequest InvalidTimestamp"
      and sessions' = "[(abc, session0\<lparr>lastAccess := 9\<rparr>)]" and c' = emptyTableStore
      and ?fails2.0 = "failsAt StepLogInsert" and key = abc and session = session0
      and ?body2.0 = logBody and time = "DateAt 1700000000000"
      and ?sessions2.0 = "[(abc, session0)]" and ?c2.0 = emptyTableStore
      and ?resp2.0 = "InternalError (units ''LevelStart'') teama QueryFailed"
      and ?sessions2' = "[(abc, session0)]"
      and ?c2' = "emptyTableStore\<lparr>issued := [InsertRow teama (levelStart (JObj []))]\<rparr>"]
  by (simp add: tryLogEvent_example tryLogEvent_record_failing)
     (simp add: logBody_members trim_abc abc_nonempty)

section \<open>The payload\<close>




section \<open>The sweep\<close>

lemma sweep_spec:
  assumes "distinct keys" and "\<forall>k\<in>set keys. map_of sessions k \<noteq> None"
  shows "\<exists>sessions'.
      sweep th keys sessions d r =
        Some (sessions',
          d + length (filter (\<lambda>k. \<exists>s. map_of sessions k = Some s \<and> lastAccess s < th) keys),
          r + length (filter (\<lambda>k. \<exists>s. map_of sessions k = Some s \<and> \<not> lastAccess s < th) keys))
    \<and> (\<forall>k. map_of sessions' k =
          (if k \<in> set keys \<and> (\<exists>s. map_of sessions k = Some s \<and> lastAccess s < th)
           then None else map_of sessions k))"
  using assms
proof (induction keys arbitrary: sessions d r)
  case Nil
  then show ?case by simp
next
  case (Cons key keys)
  from Cons.prems obtain s where s: "map_of sessions key = Some s"
    by auto
  from Cons.prems have fresh: "key \<notin> set keys" and dist: "distinct keys"
    by simp_all
  show ?case
  proof (cases "lastAccess s < th")
    case True
    let ?sessions1 = "AList.delete key sessions"
    have look: "\<And>k. k \<noteq> key \<Longrightarrow> map_of ?sessions1 k = map_of sessions k"
      by simp
    have same_look: "map_of ?sessions1 k = map_of sessions k" if "k \<in> set keys" for k
    proof -
      from that fresh have "k \<noteq> key" by auto
      then show ?thesis by (rule look)
    qed
    have present: "\<forall>k\<in>set keys. map_of ?sessions1 k \<noteq> None"
      using Cons.prems(2) by (simp add: same_look)
    have f1: "filter (\<lambda>k. \<exists>s. map_of ?sessions1 k = Some s \<and> lastAccess s < th) keys
        = filter (\<lambda>k. \<exists>s. map_of sessions k = Some s \<and> lastAccess s < th) keys"
      by (intro filter_cong) (simp_all add: same_look)
    have f2: "filter (\<lambda>k. \<exists>s. map_of ?sessions1 k = Some s \<and> \<not> lastAccess s < th) keys
        = filter (\<lambda>k. \<exists>s. map_of sessions k = Some s \<and> \<not> lastAccess s < th) keys"
      by (intro filter_cong) (simp_all add: same_look)
    from Cons.IH [OF dist present, of "d + 1" r] obtain sessions' where
      res: "sweep th keys ?sessions1 (d + 1) r =
        Some (sessions',
          d + 1 + length (filter (\<lambda>k. \<exists>s. map_of sessions k = Some s \<and> lastAccess s < th) keys),
          r + length (filter (\<lambda>k. \<exists>s. map_of sessions k = Some s \<and> \<not> lastAccess s < th) keys))"
      and maps: "\<forall>k. map_of sessions' k =
          (if k \<in> set keys \<and> (\<exists>s. map_of ?sessions1 k = Some s \<and> lastAccess s < th)
           then None else map_of ?sessions1 k)"
      unfolding f1 f2 by blast
    have "\<forall>k. map_of sessions' k =
          (if k \<in> set (key # keys) \<and> (\<exists>s. map_of sessions k = Some s \<and> lastAccess s < th)
           then None else map_of sessions k)"
    proof
      fix k
      show "map_of sessions' k =
          (if k \<in> set (key # keys) \<and> (\<exists>s. map_of sessions k = Some s \<and> lastAccess s < th)
           then None else map_of sessions k)"
      proof (cases "k = key")
        case True
        with maps fresh s \<open>lastAccess s < th\<close> show ?thesis
          by (simp add: delete_conv')
      next
        case False
        then have "map_of ?sessions1 k = map_of sessions k" by (rule look)
        with maps False show ?thesis by auto
      qed
    qed
    with res s True show ?thesis by simp
  next
    case False
    have present: "\<forall>k\<in>set keys. map_of sessions k \<noteq> None"
      using Cons.prems by simp
    from Cons.IH [OF dist present, of d "r + 1"] obtain sessions' where
      res: "sweep th keys sessions d (r + 1) =
        Some (sessions',
          d + length (filter (\<lambda>k. \<exists>s. map_of sessions k = Some s \<and> lastAccess s < th) keys),
          r + 1 + length (filter (\<lambda>k. \<exists>s. map_of sessions k = Some s \<and> \<not> lastAccess s < th) keys))"
      and maps: "\<forall>k. map_of sessions' k =
          (if k \<in> set keys \<and> (\<exists>s. map_of sessions k = Some s \<and> lastAccess s < th)
           then None else map_of sessions k)"
      by blast
    from maps s False have "\<forall>k. map_of sessions' k =
          (if k \<in> set (key # keys) \<and> (\<exists>s. map_of sessions k = Some s \<and> lastAccess s < th)
           then None else map_of sessions k)"
      by auto
    with res s False show ?thesis by simp
  qed
qed

text \<open>
  C8. After the sweep at time \<open>now\<close>, every session last accessed before
  \<open>now - SESSION_INTERVAL\<close> is gone from the cache, every other session is still
  there unchanged, no key appears, and the two counts add up to the number of
  sessions before the sweep.
\<close>

theorem sweep_removes_idle:
  assumes "distinct (map fst sessions)"
  shows "\<exists>sessions' deleted remaining.
      cleanupOldSessions now sessions = Some (sessions', deleted, remaining)
    \<and> (\<forall>k s. map_of sessions k = Some s \<and> lastAccess s < now - SESSION_INTERVAL
          \<longrightarrow> map_of sessions' k = None)
    \<and> (\<forall>k s. map_of sessions k = Some s \<and> now - SESSION_INTERVAL \<le> lastAccess s
          \<longrightarrow> map_of sessions' k = Some s)
    \<and> (\<forall>k. map_of sessions k = None \<longrightarrow> map_of sessions' k = None)
    \<and> deleted + remaining = length sessions"
proof -
  let ?th = "now - SESSION_INTERVAL"
  let ?keys = "map fst sessions"
  have present: "\<forall>k\<in>set ?keys. map_of sessions k \<noteq> None"
    by (auto simp: map_of_eq_None_iff)
  from sweep_spec [OF assms present, of ?th 0 0] obtain sessions' where
    res: "sweep ?th ?keys sessions 0 0 =
        Some (sessions',
          0 + length (filter (\<lambda>k. \<exists>s. map_of sessions k = Some s \<and> lastAccess s < ?th) ?keys),
          0 + length (filter (\<lambda>k. \<exists>s. map_of sessions k = Some s \<and> \<not> lastAccess s < ?th) ?keys))"
    and maps: "\<forall>k. map_of sessions' k =
          (if k \<in> set ?keys \<and> (\<exists>s. map_of sessions k = Some s \<and> lastAccess s < ?th)
           then None else map_of sessions k)"
    by blast
  have same: "filter (\<lambda>k. \<exists>s. map_of sessions k = Some s \<and> \<not> lastAccess s < ?th) ?keys
      = filter (\<lambda>k. \<not> (\<exists>s. map_of sessions k = Some s \<and> lastAccess s < ?th)) ?keys"
    using present by (intro filter_cong) auto
  have count: "length (filter (\<lambda>k. \<exists>s. map_of sessions k = Some s \<and> lastAccess s < ?th) ?keys)
      + length (filter (\<lambda>k. \<exists>s. map_of sessions k = Some s \<and> \<not> lastAccess s < ?th) ?keys)
      = length sessions"
    unfolding same by (simp only: sum_length_filter_compl length_map)
  have gone: "\<forall>k s. map_of sessions k = Some s \<and> lastAccess s < ?th \<longrightarrow> map_of sessions' k = None"
    using maps by (auto dest: map_of_SomeD intro: rev_image_eqI)
  have kept: "\<forall>k s. map_of sessions k = Some s \<and> ?th \<le> lastAccess s \<longrightarrow> map_of sessions' k = Some s"
    using maps by auto
  have none: "\<forall>k. map_of sessions k = None \<longrightarrow> map_of sessions' k = None"
    using maps by auto
  from res gone kept none count show ?thesis
    by (simp add: cleanupOldSessions_def)
qed

lemma cleanup_example:
  "cleanupOldSessions 2000000 threeSessions =
     Some ([(units ''edge'', session0\<lparr>lastAccess := 200000\<rparr>),
            (units ''new'', session0\<lparr>lastAccess := 2000000\<rparr>)], 1, 2)"
  by (simp add: cleanupOldSessions_def SESSION_INTERVAL_def threeSessions_def session0_def units_def)

theorem sweep_removes_idle_witness:
  "distinct (map fst threeSessions)
   \<and> cleanupOldSessions 2000000 threeSessions =
       Some ([(units ''edge'', session0\<lparr>lastAccess := 200000\<rparr>),
              (units ''new'', session0\<lparr>lastAccess := 2000000\<rparr>)], 1, 2)
   \<and> map_of threeSessions (units ''old'') = Some (session0\<lparr>lastAccess := 199999\<rparr>)
   \<and> lastAccess (session0\<lparr>lastAccess := 199999\<rparr>) < 2000000 - SESSION_INTERVAL
   \<and> map_of threeSessions (units ''edge'') = Some (session0\<lparr>lastAccess := 200000\<rparr>)
   \<and> 2000000 - SESSION_INTERVAL \<le> lastAccess (session0\<lparr>lastAccess := 200000\<rparr>)
   \<and> (1::nat) + 2 = length threeSessions"
proof -
  have keys: "distinct (map fst threeSessions)"
    by (simp add: threeSessions_def units_def)
  show ?thesis
    using sweep_removes_idle [OF keys, of 2000000] keys cleanup_example
    by (simp add: threeSessions_def SESSION_INTERVAL_def units_def)
qed

section \<open>Session keys\<close>

lemma generateSessionKey_sound:
  assumes returned: "generateSessionKey generate sessions n = Some k"
  shows "map_of sessions k = None \<and> (\<exists>m\<ge>n. k = generate m)"
proof -
  have step: "map_of ss y = None \<and> (\<exists>m\<ge>i. y = g m)"
    if IH: "\<And>g ss i y. loop g ss i = Some y \<Longrightarrow> map_of ss y = None \<and> (\<exists>m\<ge>i. y = g m)"
      and eq: "(if map_of ss (g i) \<noteq> None then loop g ss (Suc i) else Some (g i)) = Some y"
    for loop g ss i y
  proof (cases "map_of ss (g i) = None")
    case True
    with eq have "y = g i" by simp
    with True show ?thesis by auto
  next
    case False
    with eq have "loop g ss (Suc i) = Some y" by simp
    then have "map_of ss y = None \<and> (\<exists>m\<ge>Suc i. y = g m)" by (rule IH)
    then show ?thesis by (auto intro: Suc_leD)
  qed
  show ?thesis
    by (rule generateSessionKey.raw_induct
        [where P = "\<lambda>g ss i y. map_of ss y = None \<and> (\<exists>m\<ge>i. y = g m)", OF step returned])
qed

lemma generateSessionKey_first_fresh:
  assumes "map_of sessions (generate (n + d)) = None"
    and "\<forall>i<d. map_of sessions (generate (n + i)) \<noteq> None"
  shows "generateSessionKey generate sessions n = Some (generate (n + d))"
  using assms
proof (induction d arbitrary: n)
  case 0
  then show ?case by (simp add: generateSessionKey.simps)
next
  case (Suc d)
  from Suc.prems(2) have taken: "map_of sessions (generate n) \<noteq> None"
    by (metis add.right_neutral zero_less_Suc)
  have "map_of sessions (generate (Suc n + d)) = None"
    using Suc.prems(1) by simp
  moreover have "\<forall>i<d. map_of sessions (generate (Suc n + i)) \<noteq> None"
    using Suc.prems(2) by (metis Suc_less_eq add_Suc_shift)
  ultimately have "generateSessionKey generate sessions (Suc n) = Some (generate (Suc n + d))"
    by (rule Suc.IH)
  with taken show ?case
    by (subst generateSessionKey.simps) simp
qed

lemma generateSessionKey_never:
  assumes "\<forall>m. map_of sessions (generate m) \<noteq> None"
  shows "generateSessionKey generate sessions n = None"
proof (cases "generateSessionKey generate sessions n")
  case None
  then show ?thesis .
next
  case (Some k)
  from generateSessionKey_sound [OF Some] obtain m where "map_of sessions (generate m) = None"
    by auto
  with assms have False by blast
  then show ?thesis ..
qed

text \<open>
  C6, as the code has it. The loop that generates the session key has no bound. It
  returns the first key drawn that is not in the cache, after however many draws that
  takes; the key it returns is not in the cache; and when every draw is a key of the
  cache it never returns.
\<close>

theorem sessionKey_retry:
  "(map_of sessions (generate (n + d)) = None
      \<and> (\<forall>i<d. map_of sessions (generate (n + i)) \<noteq> None)
     \<longrightarrow> generateSessionKey generate sessions n = Some (generate (n + d)))
   \<and> (generateSessionKey generate sessions n = Some k \<longrightarrow> map_of sessions k = None)
   \<and> ((\<forall>m. map_of sessions (generate m) \<noteq> None)
     \<longrightarrow> generateSessionKey generate sessions n = None)"
  using generateSessionKey_first_fresh [of sessions generate n d]
    generateSessionKey_sound [of generate sessions n k]
    generateSessionKey_never [of sessions generate n]
  by blast

theorem sessionKey_retry_witness:
  "map_of [(abc, session0)] (lateKey (0 + 3)) = None
   \<and> map_of [(abc, session0)] (lateKey (0 + 0)) \<noteq> None
   \<and> map_of [(abc, session0)] (lateKey (0 + 1)) \<noteq> None
   \<and> map_of [(abc, session0)] (lateKey (0 + 2)) \<noteq> None
   \<and> generateSessionKey lateKey [(abc, session0)] 0 = Some (units ''new'')
   \<and> map_of [(abc, session0)] (units ''new'') = None"
proof -
  have fresh: "map_of [(abc, session0)] (lateKey (0 + 3)) = None"
    by (simp add: lateKey_def abc_def units_def)
  have taken: "\<forall>i<3. map_of [(abc, session0)] (lateKey (0 + i)) \<noteq> None"
    by (simp add: lateKey_def abc_def units_def)
  from sessionKey_retry [of "[(abc, session0)]" lateKey 0 3 "units ''new''"] fresh taken
  have "generateSessionKey lateKey [(abc, session0)] 0 = Some (lateKey (0 + 3))"
    by blast
  with fresh taken show ?thesis by (simp add: lateKey_def abc_def units_def)
qed

text \<open>
  C6 as stated makes the loop a bounded retry that ends in a reported failure. With a
  generator that keeps drawing a key of the cache, the loop does not end at all.
\<close>

theorem sessionKey_loop_unbounded:
  "generateSessionKey sameKey [(abc, session0)] 0 = None"
  by (rule generateSessionKey_never) (simp add: sameKey_def)

end
